theory Spec2Isabelle
  imports Main "HOL-Library.Sublist" "HOL-Library.Multiset"
begin

section \<open>Python values and exceptions\<close>

text \<open>
  The notebook \<^verbatim>\<open>neo4j_rag.ipynb\<close> is a Python script of sixteen code cells. Its own code
  builds literals, calls functions and methods of external libraries, subscripts one
  decoded JSON document, reads one attribute in a \<^verbatim>\<open>for\<close> loop and prints.

  Python is dynamically typed, so every value the notebook handles is a \<open>pyval\<close>:
  the literals it writes, the documents a library returns, a library object
  (\<open>PObj\<close>: the class name and the attributes the notebook can read) and a bound
  method (\<open>PMeth\<close>: \<^verbatim>\<open>vector_qa.invoke\<close> is \<open>PMeth vector_qa ''invoke''\<close>).
  A dictionary lists its items in order, with distinct keys.
\<close>

datatype pyval =
    PNone
  | PBool bool
  | PInt int
  | PStr string
  | PList "pyval list"
  | PDict "(string \<times> pyval) list"
  | PObj string "(string \<times> pyval) list"
  | PMeth pyval string

text \<open>
  The notebook has no \<^verbatim>\<open>try\<close> statement and no \<^verbatim>\<open>raise\<close>. An exception is either
  raised by Python itself for an operation of the notebook (\<open>KeyError\<close>,
  \<open>TypeError\<close>, \<open>AttributeError\<close>) or comes out of a library call
  (\<open>LibraryError\<close> with the name of the exception: a network error, a
  database error, a model API error).
\<close>

datatype error =
    KeyError string
  | TypeError string
  | AttributeError string
  | LibraryError string

text \<open>\<^verbatim>\<open>v[k]\<close> for a string key \<open>k\<close>: only a dictionary that has the key answers.\<close>

fun subscript :: "pyval \<Rightarrow> string \<Rightarrow> error + pyval" where
  "subscript (PDict kvs) k =
     (case map_of kvs k of Some v \<Rightarrow> Inr v | None \<Rightarrow> Inl (KeyError k))"
| "subscript v k = Inl (TypeError ''subscript'')"

text \<open>\<^verbatim>\<open>v.a\<close> for an attribute \<open>a\<close> that is not a method of a built-in type.\<close>

fun getattr :: "pyval \<Rightarrow> string \<Rightarrow> error + pyval" where
  "getattr (PObj c attrs) a =
     (case map_of attrs a of Some v \<Rightarrow> Inr v | None \<Rightarrow> Inl (AttributeError a))"
| "getattr v a = Inl (AttributeError a)"

text \<open>The items a \<^verbatim>\<open>for\<close> loop visits.\<close>

fun iter :: "pyval \<Rightarrow> error + pyval list" where
  "iter (PList xs) = Inr xs"
| "iter (PDict kvs) = Inr (map (\<lambda>kv. PStr (fst kv)) kvs)"
| "iter (PStr s) = Inr (map (\<lambda>c. PStr [c]) s)"
| "iter v = Inl (TypeError ''iter'')"

section \<open>External calls\<close>

text \<open>
  Every function and method the notebook calls belongs to an external library
  (\<^verbatim>\<open>requests\<close>, \<^verbatim>\<open>langchain\<close>, \<^verbatim>\<open>langchain_community\<close>, \<^verbatim>\<open>langchain_ollama\<close>,
  \<^verbatim>\<open>langchain_groq\<close>). A call names its callee (a function or constructor by its
  dotted name, or a method of an object), its positional arguments and its keyword
  arguments. What the call does to the outside world and what it returns or raises is
  not in the repository: it is given by an environment \<open>E\<close>, a parameter of every
  definition below, over a world \<open>'w\<close> of which nothing is assumed. An environment is a
  function: every call returns or raises, and a call that never returns is outside the
  model.
\<close>

datatype callee = Fn string | Meth pyval string

type_synonym 'w env =
  "callee \<Rightarrow> pyval list \<Rightarrow> (string \<times> pyval) list \<Rightarrow> 'w \<Rightarrow> (error + pyval) \<times> 'w"

text \<open>An event records one call, in the order the calls are made, with its outcome.\<close>

datatype event =
  Event (ev_callee: callee) (ev_args: "pyval list")
        (ev_kwargs: "(string \<times> pyval) list") (ev_outcome: "error + pyval")

record 'w state =
  world :: 'w
  trace :: "event list"
  stdout :: "pyval list list"
  environ :: "(string \<times> string) list"

definition init :: "'w \<Rightarrow> 'w state" where
  "init w = \<lparr>world = w, trace = [], stdout = [], environ = []\<rparr>"

text \<open>
  A statement either completes with a value or raises; either way it leaves a state.
  Statements run in sequence, and an exception ends the sequence: that is all Python
  does with an exception in code that has no handler.
\<close>

type_synonym ('w, 'a) prog = "'w state \<Rightarrow> (error + 'a) \<times> 'w state"

definition return :: "'a \<Rightarrow> ('w, 'a) prog" where
  "return x s = (Inr x, s)"

definition lift :: "error + 'a \<Rightarrow> ('w, 'a) prog" where
  "lift r s = (r, s)"

definition bind :: "('w, 'a) prog \<Rightarrow> ('a \<Rightarrow> ('w, 'b) prog) \<Rightarrow> ('w, 'b) prog" where
  "bind m f s = (case m s of (Inl e, s') \<Rightarrow> (Inl e, s') | (Inr x, s') \<Rightarrow> f x s')"

definition call ::
  "'w env \<Rightarrow> callee \<Rightarrow> pyval list \<Rightarrow> (string \<times> pyval) list \<Rightarrow> ('w, pyval) prog" where
  "call E c args kwargs s =
     (case E c args kwargs (world s) of
        (r, w') \<Rightarrow> (r, s\<lparr>world := w', trace := trace s @ [Event c args kwargs r]\<rparr>))"

text \<open>\<^verbatim>\<open>print(a, b, ...)\<close> writes one line made of its arguments.\<close>

definition print :: "pyval list \<Rightarrow> ('w, unit) prog" where
  "print vs s = (Inr (), s\<lparr>stdout := stdout s @ [vs]\<rparr>)"

text \<open>\<^verbatim>\<open>os.environ[k] = v\<close>.\<close>

definition setenv :: "string \<Rightarrow> string \<Rightarrow> ('w, unit) prog" where
  "setenv k v s = (Inr (), s\<lparr>environ := (k, v) # environ s\<rparr>)"

text \<open>\<^verbatim>\<open>for x in xs: body\<close> over the items already obtained from \<open>iter\<close>.\<close>

fun for_each :: "pyval list \<Rightarrow> (pyval \<Rightarrow> ('w, unit) prog) \<Rightarrow> ('w, unit) prog" where
  "for_each [] body = return ()"
| "for_each (x # xs) body = bind (body x) (\<lambda>u. for_each xs body)"

section \<open>The cells of the notebook\<close>

text \<open>
  Each code cell is a definition, its statements in the order Python runs them (the
  arguments of a call before the call, from left to right). A variable of the notebook
  that a later cell reads is the value the cell returns. The \<^verbatim>\<open>import\<close> statements and
  the value that the notebook front end displays under a cell are not modelled.
\<close>

subsection \<open>Connection to the graph database\<close>

text \<open>
  \<^verbatim>\<open>url\<close>, \<^verbatim>\<open>username\<close> and \<^verbatim>\<open>password\<close> are assigned once, in the first cell, and read
  by the first and the third.
\<close>

definition url :: string where
  "url = ''Your neo4j instance URL''"

definition username :: string where
  "username = ''neo4j''"

definition password :: string where
  "password = ''Your neo4j instance password''"

definition cell_graph :: "'w env \<Rightarrow> ('w, pyval) prog" where
  "cell_graph E =
     call E (Fn ''Neo4jGraph'') []
       [(''url'', PStr url), (''username'', PStr username), (''password'', PStr password)]"

subsection \<open>Import of the dataset\<close>

definition import_url :: string where
  "import_url = ''https://gist.githubusercontent.com/tomasonjo/08dc8ba0e19d592c4c3cde40dd6abcc3/raw/e90b0c9386bf8be15b199e8ac8f83fc265a2ac57/microservices.json''"

text \<open>
  \<^verbatim>\<open>import_query = requests.get(import_url).json()['query']\<close> and then
  \<^verbatim>\<open>graph.query(import_query)\<close>.
\<close>

definition cell_import :: "'w env \<Rightarrow> pyval \<Rightarrow> ('w, pyval) prog" where
  "cell_import E graph =
     bind (call E (Fn ''requests.get'') [PStr import_url] []) (\<lambda>r.
     bind (call E (Meth r ''json'') [] []) (\<lambda>j.
     bind (lift (subscript j ''query'')) (\<lambda>import_query.
     bind (call E (Meth graph ''query'') [import_query] []) (\<lambda>out.
     return import_query))))"

subsection \<open>Vector index\<close>

definition from_existing_graph_kwargs :: "pyval \<Rightarrow> (string \<times> pyval) list" where
  "from_existing_graph_kwargs embedding =
     [(''embedding'', embedding),
      (''url'', PStr url),
      (''username'', PStr username),
      (''password'', PStr password),
      (''index_name'', PStr ''tasks''),
      (''node_label'', PStr ''Task''),
      (''text_node_properties'', PList [PStr ''name'', PStr ''description'', PStr ''status'']),
      (''embedding_node_property'', PStr ''embedding'')]"

definition cell_vector_index :: "'w env \<Rightarrow> ('w, pyval) prog" where
  "cell_vector_index E =
     bind (call E (Fn ''OllamaEmbeddings'') [] [(''model'', PStr ''llama3'')]) (\<lambda>embedding.
     call E (Fn ''Neo4jVector.from_existing_graph'') [] (from_existing_graph_kwargs embedding))"

definition cell_similarity_search :: "'w env \<Rightarrow> pyval \<Rightarrow> ('w, pyval) prog" where
  "cell_similarity_search E vector_index =
     call E (Meth vector_index ''similarity_search'')
       [PStr ''How will RecommendationService be updated?''] []"

text \<open>\<^verbatim>\<open>for i in response: print(i.page_content)\<close>.\<close>

definition cell_print_response :: "pyval \<Rightarrow> ('w, unit) prog" where
  "cell_print_response response =
     bind (lift (iter response)) (\<lambda>items.
     for_each items (\<lambda>i.
       bind (lift (getattr i ''page_content'')) (\<lambda>c. print [c])))"

subsection \<open>Retrieval question answering\<close>

definition llama_3_1 :: string where
  "llama_3_1 = ''llama-3.1-70b-versatile''"

definition cell_vector_qa :: "'w env \<Rightarrow> pyval \<Rightarrow> ('w, pyval) prog" where
  "cell_vector_qa E vector_index =
     bind (setenv ''GROQ_API_KEY'' ''Your Groq API key'') (\<lambda>u.
     bind (call E (Fn ''ChatGroq'') [] [(''model_name'', PStr llama_3_1)]) (\<lambda>llm.
     bind (call E (Meth vector_index ''as_retriever'') [] []) (\<lambda>retriever.
     call E (Fn ''RetrievalQA.from_chain_type'') []
       [(''llm'', llm), (''chain_type'', PStr ''stuff''), (''retriever'', retriever)])))"

definition cell_vector_qa_update :: "'w env \<Rightarrow> pyval \<Rightarrow> ('w, pyval) prog" where
  "cell_vector_qa_update E vector_qa =
     call E (Meth vector_qa ''invoke'')
       [PDict [(''query'', PStr ''How will recommendation service be updated?'')]] []"

definition cell_vector_qa_count :: "'w env \<Rightarrow> pyval \<Rightarrow> ('w, pyval) prog" where
  "cell_vector_qa_count E vector_qa =
     call E (Meth vector_qa ''invoke'') [PStr ''How many open tickets are there?''] []"

definition count_query :: string where
  "count_query = ''MATCH (t:Task {status:'open'}) RETURN count(*)''"

definition cell_count_open :: "'w env \<Rightarrow> pyval \<Rightarrow> ('w, pyval) prog" where
  "cell_count_open E graph = call E (Meth graph ''query'') [PStr count_query] []"

subsection \<open>Translation of questions into graph queries\<close>

definition cell_cypher_chain :: "'w env \<Rightarrow> pyval \<Rightarrow> ('w, pyval) prog" where
  "cell_cypher_chain E graph =
     bind (call E (Meth graph ''refresh_schema'') [] []) (\<lambda>u.
     bind (call E (Fn ''ChatGroq'') []
             [(''temperature'', PInt 0), (''model_name'', PStr llama_3_1)]) (\<lambda>cypher_llm.
     bind (call E (Fn ''ChatGroq'') [] [(''temperature'', PInt 0)]) (\<lambda>qa_llm.
     call E (Fn ''GraphCypherQAChain.from_llm'') []
       [(''cypher_llm'', cypher_llm), (''qa_llm'', qa_llm), (''graph'', graph),
        (''verbose'', PBool True)])))"

definition cell_cypher_invoke :: "'w env \<Rightarrow> pyval \<Rightarrow> string \<Rightarrow> ('w, pyval) prog" where
  "cell_cypher_invoke E cypher_chain question =
     call E (Meth cypher_chain ''invoke'') [PStr question] []"

subsection \<open>Agent\<close>

definition tasks_tool_kwargs :: "pyval \<Rightarrow> (string \<times> pyval) list" where
  "tasks_tool_kwargs vector_qa =
     [(''name'', PStr ''Tasks''),
      (''func'', PMeth vector_qa ''invoke''),
      (''description'', PStr ''Useful when you need to answer questions about descriptions of tasks.\<newline>        Not useful for counting the number of tasks.\<newline>        Use full question as input.\<newline>        '')]"

definition graph_tool_kwargs :: "pyval \<Rightarrow> (string \<times> pyval) list" where
  "graph_tool_kwargs cypher_chain =
     [(''name'', PStr ''Graph''),
      (''func'', PMeth cypher_chain ''invoke''),
      (''description'', PStr ''Useful when you need to answer questions about microservices,\<newline>        their dependencies or assigned people. Also useful for any sort of \<newline>        aggregation like counting the number of tasks, etc.\<newline>        Use full question as input.\<newline>        '')]"

definition template :: string where
  "template = ''Answer the following questions as best you can. You have access to the following tools:\<newline>\<newline>{tools}\<newline>\<newline>Use the following format:\<newline>\<newline>Question: the input question you must answer, ignore the question or query in the parse-able action\<newline>Thought: you should always think about what to do\<newline>Action: the action to take, should be one of [{tool_names}]\<newline>Action Input: the input to the action\<newline>Observation: the result of the action, ignore the query part\<newline>Final Answer: the final answer to the original input question\<newline>\<newline>Begin!\<newline>\<newline>Question: {input}\<newline>Thought:{agent_scratchpad}''"

definition max_iterations :: nat where
  "max_iterations = 2"

definition cell_agent :: "'w env \<Rightarrow> pyval \<Rightarrow> pyval \<Rightarrow> ('w, pyval) prog" where
  "cell_agent E vector_qa cypher_chain =
     bind (call E (Fn ''Tool'') [] (tasks_tool_kwargs vector_qa)) (\<lambda>tasks_tool.
     bind (call E (Fn ''Tool'') [] (graph_tool_kwargs cypher_chain)) (\<lambda>graph_tool.
     let tools = PList [tasks_tool, graph_tool] in
     bind (call E (Fn ''PromptTemplate.from_template'') [PStr template] []) (\<lambda>prompt.
     bind (call E (Fn ''ChatGroq'') []
             [(''temperature'', PInt 0), (''model_name'', PStr llama_3_1)]) (\<lambda>llm.
     bind (call E (Fn ''create_react_agent'') []
             [(''llm'', llm), (''tools'', tools), (''prompt'', prompt),
              (''stop_sequence'', PBool True)]) (\<lambda>agent.
     bind (call E (Fn ''AgentExecutor'') []
             [(''agent'', agent), (''tools'', tools), (''verbose'', PBool True),
              (''max_iterations'', PInt (int max_iterations))]) (\<lambda>agent_executor.
     bind (call E (Meth agent_executor ''invoke'')
             [PDict [(''input'', PStr ''Which team is assigned to maintain PaymentService?'')]]
             []) (\<lambda>response.
     bind (print [PStr ''response:'', response]) (\<lambda>u.
     return agent_executor))))))))"

definition cell_agent_tasks :: "'w env \<Rightarrow> pyval \<Rightarrow> ('w, unit) prog" where
  "cell_agent_tasks E agent_executor =
     bind (call E (Meth agent_executor ''invoke'')
             [PDict [(''input'', PStr ''What tasks have optimization in their description?'')]]
             []) (\<lambda>response.
     print [PStr ''response:'', response])"

subsection \<open>The notebook, cell after cell\<close>

definition cells_after_import :: "'w env \<Rightarrow> pyval \<Rightarrow> ('w, unit) prog" where
  "cells_after_import E graph =
     bind (cell_vector_index E) (\<lambda>vector_index.
     bind (cell_similarity_search E vector_index) (\<lambda>response.
     bind (cell_print_response response) (\<lambda>u.
     bind (cell_vector_qa E vector_index) (\<lambda>vector_qa.
     bind (cell_vector_qa_update E vector_qa) (\<lambda>u.
     bind (cell_vector_qa_count E vector_qa) (\<lambda>u.
     bind (cell_count_open E graph) (\<lambda>u.
     bind (cell_cypher_chain E graph) (\<lambda>cypher_chain.
     bind (cell_cypher_invoke E cypher_chain ''How many open tickets are there?'') (\<lambda>u.
     bind (cell_cypher_invoke E cypher_chain ''Which Team has the most open Tasks?'') (\<lambda>u.
     bind (cell_cypher_invoke E cypher_chain
             ''Which services depend on Database directly?'') (\<lambda>u.
     bind (cell_cypher_invoke E cypher_chain
             ''Which services depend on Database indirectly?'') (\<lambda>u.
     bind (cell_agent E vector_qa cypher_chain) (\<lambda>agent_executor.
     cell_agent_tasks E agent_executor)))))))))))))"

definition notebook :: "'w env \<Rightarrow> ('w, unit) prog" where
  "notebook E =
     bind (cell_graph E) (\<lambda>graph.
     bind (cell_import E graph) (\<lambda>import_query.
     cells_after_import E graph))"

text \<open>
  A run of the notebook starts with nothing called, nothing printed and the world
  \<open>w\<close>: \<open>calls\<close> is the sequence of calls the run makes and \<open>outcome\<close> is how
  it ends, with \<open>Inr ()\<close> when the last cell has run and with the exception otherwise.
\<close>

definition calls :: "'w env \<Rightarrow> 'w \<Rightarrow> event list" where
  "calls E w = trace (snd (notebook E (init w)))"

definition outcome :: "'w env \<Rightarrow> 'w \<Rightarrow> error + unit" where
  "outcome E w = fst (notebook E (init w))"

text \<open>The calls a statement \<open>m\<close> adds when it starts in the state \<open>s\<close>.\<close>

definition new_events :: "('w, 'a) prog \<Rightarrow> 'w state \<Rightarrow> event list" where
  "new_events m s = drop (length (trace s)) (trace (snd (m s)))"

text \<open>
  The keyword arguments of the two tools, in the order of the list \<^verbatim>\<open>tools\<close>.
\<close>

definition notebook_tools :: "pyval \<Rightarrow> pyval \<Rightarrow> (string \<times> pyval) list list" where
  "notebook_tools vector_qa cypher_chain =
     [tasks_tool_kwargs vector_qa, graph_tool_kwargs cypher_chain]"


section \<open>The wrappers of the external framework\<close>

text \<open>
  The notebook builds three objects of the external framework and invokes them: the
  vector index, the chain that translates a question into a graph query, and the agent
  executor. Their code is not in the repository. The definitions of this section follow
  what the specification says about them, and the notebook's own arguments are passed
  to them as they are written in the cells above.
\<close>

subsection \<open>The query-translation wrapper\<close>

text \<open>
  Modelled from the spec: the \<^verbatim>\<open>invoke\<close> method of the query-translation wrapper
  (\<^verbatim>\<open>GraphCypherQAChain\<close>, external library code that is not in the repository). The
  specification: it "sends the user's question and the graph's schema to a hosted
  language model, asks it to produce a structured graph query, executes that query
  against the graph database, and asks the model again to phrase the raw result as
  natural language". \<open>cypher_llm\<close>, \<open>qa_llm\<close> and \<open>graph\<close> are the keyword arguments
  of \<^verbatim>\<open>GraphCypherQAChain.from_llm\<close>; the schema is read from the graph client; the
  value returned has the two entries the notebook's recorded outputs show.
\<close>

definition cypher_chain_invoke ::
  "'w env \<Rightarrow> pyval \<Rightarrow> pyval \<Rightarrow> pyval \<Rightarrow> pyval \<Rightarrow> ('w, pyval) prog" where
  "cypher_chain_invoke E cypher_llm qa_llm graph question =
     bind (call E (Meth graph ''get_schema'') [] []) (\<lambda>schema.
     bind (call E (Meth cypher_llm ''invoke'')
             [PDict [(''question'', question), (''schema'', schema)]] []) (\<lambda>generated_query.
     bind (call E (Meth graph ''query'') [generated_query] []) (\<lambda>raw_result.
     bind (call E (Meth qa_llm ''invoke'') [PDict [(''context'', raw_result)]] []) (\<lambda>answer.
     return (PDict [(''query'', question), (''result'', answer)])))))"

subsection \<open>The agent loop\<close>

text \<open>
  Modelled from the spec: what the language model chooses in one iteration of the agent
  loop (external library code that is not in the repository), "a tool and input" or
  "a final answer".
\<close>

datatype choice = Action string pyval | Final pyval

text \<open>
  Modelled from the spec: the reading of the model's reply, which the specification
  leaves to the external framework. The reply follows the format the notebook's prompt
  template asks for: an entry \<^verbatim>\<open>Final Answer\<close>, or the entries \<^verbatim>\<open>Action\<close> and
  \<^verbatim>\<open>Action Input\<close>; any other reply is an error of the framework.
\<close>

fun choice_of :: "pyval \<Rightarrow> error + choice" where
  "choice_of (PDict kvs) =
     (case map_of kvs ''Final Answer'' of
        Some answer \<Rightarrow> Inr (Final answer)
      | None \<Rightarrow>
          (case (map_of kvs ''Action'', map_of kvs ''Action Input'') of
             (Some (PStr name), Some tool_input) \<Rightarrow> Inr (Action name tool_input)
           | _ \<Rightarrow> Inl (LibraryError ''OutputParserException'')))"
| "choice_of v = Inl (LibraryError ''OutputParserException'')"

text \<open>
  Modelled from the spec: calling the function of a tool, which in the notebook is a
  bound method (\<^verbatim>\<open>vector_qa.invoke\<close>, \<^verbatim>\<open>cypher_chain.invoke\<close>); a value that is not
  callable raises.
\<close>

fun call_value :: "'w env \<Rightarrow> pyval \<Rightarrow> pyval list \<Rightarrow> ('w, pyval) prog" where
  "call_value E (PMeth obj name) args = call E (Meth obj name) args []"
| "call_value E v args = lift (Inl (TypeError ''call''))"

text \<open>
  Modelled from the spec: the agent loop "executes" the chosen tool: the tool is looked up
  by its name in the list of tools, each given by the keyword arguments of \<^verbatim>\<open>Tool\<close>, and
  its function is called on the chosen input. The specification does not say what
  happens when the model names a tool that is not in the list; here no tool is called and
  the observation says so.
\<close>

definition execute ::
  "'w env \<Rightarrow> (string \<times> pyval) list list \<Rightarrow> string \<Rightarrow> pyval \<Rightarrow> ('w, pyval) prog" where
  "execute E tools name tool_input =
     (case find (\<lambda>tool. map_of tool ''name'' = Some (PStr name)) tools of
        None \<Rightarrow> return (PStr (name @ '' is not a valid tool''))
      | Some tool \<Rightarrow>
          (case map_of tool ''func'' of
             None \<Rightarrow> lift (Inl (AttributeError ''func''))
           | Some func \<Rightarrow> call_value E func [tool_input]))"

text \<open>
  Modelled from the spec: the agent loop (\<^verbatim>\<open>AgentExecutor\<close>, external library code that
  is not in the repository). The specification: "given a fixed prompt template and a
  list of named tools (the two wrappers above), repeatedly asks a hosted language model
  to choose a tool and input, executes it, and feeds the observation back, until a final
  answer is produced or an iteration cap is reached". The model is asked through the
  agent object that \<^verbatim>\<open>create_react_agent\<close> built from the model client, the tools and the
  prompt. The fourth argument counts the iterations that remain; the specification does
  not say what the loop returns when none remains, and here it returns \<^verbatim>\<open>None\<close>.
\<close>

fun agent_loop ::
  "'w env \<Rightarrow> pyval \<Rightarrow> (string \<times> pyval) list list \<Rightarrow> pyval \<Rightarrow> nat \<Rightarrow> pyval list \<Rightarrow>
     ('w, pyval) prog" where
  "agent_loop E agent tools input 0 observations = return PNone"
| "agent_loop E agent tools input (Suc n) observations =
     bind (call E (Meth agent ''plan'') [PList observations, input] []) (\<lambda>reply.
     bind (lift (choice_of reply)) (\<lambda>choice.
       case choice of
         Final answer \<Rightarrow> return answer
       | Action name tool_input \<Rightarrow>
           bind (execute E tools name tool_input) (\<lambda>observation.
           agent_loop E agent tools input n (observations @ [PList [reply, observation]]))))"

text \<open>
  Modelled from the spec: the \<^verbatim>\<open>invoke\<close> method of the agent executor, called in the
  notebook with a dictionary that holds the question under \<^verbatim>\<open>input\<close>; it runs the loop with
  the iteration cap and returns the two entries the notebook's recorded outputs show.
\<close>

definition agent_executor_invoke ::
  "'w env \<Rightarrow> pyval \<Rightarrow> (string \<times> pyval) list list \<Rightarrow> nat \<Rightarrow> pyval \<Rightarrow> ('w, pyval) prog" where
  "agent_executor_invoke E agent tools cap inputs =
     bind (lift (subscript inputs ''input'')) (\<lambda>input.
     bind (agent_loop E agent tools input cap []) (\<lambda>answer.
     return (PDict [(''input'', input), (''output'', answer)])))"

text \<open>
  The agent executor as the notebook configures it: the two tools of the list
  \<^verbatim>\<open>tools\<close> and \<^verbatim>\<open>max_iterations=2\<close>.
\<close>

definition agent_run ::
  "'w env \<Rightarrow> pyval \<Rightarrow> pyval \<Rightarrow> pyval \<Rightarrow> pyval \<Rightarrow> 'w \<Rightarrow> (error + pyval) \<times> 'w state" where
  "agent_run E agent vector_qa cypher_chain inputs w =
     agent_executor_invoke E agent (notebook_tools vector_qa cypher_chain) max_iterations inputs
       (init w)"

subsection \<open>The vector index\<close>

text \<open>
  Modelled from the spec: a node of the graph store that the external graph database
  holds: "nodes labeled Microservice, Task, Team with properties such as name,
  description, status, technology".
\<close>

record node =
  labels :: "string list"
  properties :: "(string \<times> pyval) list"

text \<open>
  Modelled from the spec: what the vector index adapter (\<^verbatim>\<open>Neo4jVector\<close>, external
  library code that is not in the repository) keeps of its configuration: "which node
  label and properties feed the vector index", and the property that stores the embedding.
\<close>

record vector_index =
  node_label :: string
  text_node_properties :: "string list"
  embedding_node_property :: string

text \<open>Modelled from the spec: a list of property names, given as Python strings.\<close>

fun strings :: "pyval list \<Rightarrow> string list option" where
  "strings [] = Some []"
| "strings (PStr s # vs) = map_option (Cons s) (strings vs)"
| "strings (v # vs) = None"

text \<open>
  Modelled from the spec: the configuration the adapter reads from the keyword arguments
  of \<^verbatim>\<open>Neo4jVector.from_existing_graph\<close>.
\<close>

definition vector_index_of :: "(string \<times> pyval) list \<Rightarrow> error + vector_index" where
  "vector_index_of kwargs =
     (case (map_of kwargs ''node_label'', map_of kwargs ''text_node_properties'',
            map_of kwargs ''embedding_node_property'') of
        (Some (PStr label), Some (PList ps), Some (PStr target)) \<Rightarrow>
          (case strings ps of
             Some names \<Rightarrow>
               Inr \<lparr>node_label = label, text_node_properties = names,
                    embedding_node_property = target\<rparr>
           | None \<Rightarrow> Inl (TypeError ''text_node_properties''))
      | _ \<Rightarrow> Inl (TypeError ''from_existing_graph''))"

text \<open>
  Modelled from the spec: the text properties of a node that the embedding is computed
  from: the configured names, each with the value the node has for it, if any.
\<close>

definition text_properties :: "string list \<Rightarrow> node \<Rightarrow> (string \<times> pyval option) list" where
  "text_properties names n = map (\<lambda>p. (p, map_of (properties n) p)) names"

text \<open>Modelled from the spec: storing a value in a property of a node.\<close>

fun set_property :: "string \<Rightarrow> pyval \<Rightarrow> (string \<times> pyval) list \<Rightarrow> (string \<times> pyval) list" where
  "set_property k v [] = [(k, v)]"
| "set_property k v (kv # kvs) =
     (if fst kv = k then (k, v) # kvs else kv # set_property k v kvs)"

text \<open>
  Modelled from the spec: the adapter "instructs the graph database ... to compute and
  persist embeddings for a node label's text properties". The embedding service is the
  parameter \<open>embed_text\<close> ("given a model name and input text, returns a fixed-length
  numeric vector").
\<close>

definition persist_embedding ::
  "((string \<times> pyval option) list \<Rightarrow> pyval) \<Rightarrow> vector_index \<Rightarrow> node \<Rightarrow> node" where
  "persist_embedding embed_text vi n =
     (if node_label vi \<in> set (labels n)
      then n\<lparr>properties :=
               set_property (embedding_node_property vi)
                 (embed_text (text_properties (text_node_properties vi) n)) (properties n)\<rparr>
      else n)"

text \<open>
  Modelled from the spec: the construction of the adapter over a graph store: it reads its
  configuration and has the embedding of every node persisted.
\<close>

definition from_existing_graph ::
  "((string \<times> pyval option) list \<Rightarrow> pyval) \<Rightarrow> (string \<times> pyval) list \<Rightarrow> node list \<Rightarrow>
     error + vector_index \<times> node list" where
  "from_existing_graph embed_text kwargs store =
     (case vector_index_of kwargs of
        Inl e \<Rightarrow> Inl e
      | Inr vi \<Rightarrow> Inr (vi, map (persist_embedding embed_text vi) store))"

text \<open>
  Modelled from the spec: the nodes the index covers, each with its stored embedding.
\<close>

definition indexed :: "vector_index \<Rightarrow> node list \<Rightarrow> (node \<times> pyval) list" where
  "indexed vi store =
     List.map_filter (\<lambda>n.
        if node_label vi \<in> set (labels n)
        then map_option (Pair n) (map_of (properties n) (embedding_node_property vi))
        else None) store"

text \<open>
  Modelled from the spec: the nearest-neighbor lookup, "finding stored items whose
  embedding vectors are closest to a query embedding under a distance metric". The
  embedding of the query and the metric are parameters; \<open>k\<close> is the number of items asked
  for.
\<close>

definition similarity_search ::
  "(string \<Rightarrow> pyval) \<Rightarrow> (pyval \<Rightarrow> pyval \<Rightarrow> 'd::linorder) \<Rightarrow> vector_index \<Rightarrow> node list \<Rightarrow>
     string \<Rightarrow> nat \<Rightarrow> node list" where
  "similarity_search embed_query distance vi store query k =
     map fst (take k (sort_key (\<lambda>nv. distance (embed_query query) (snd nv)) (indexed vi store)))"

text \<open>The configuration the notebook's keyword arguments give to the adapter.\<close>

definition notebook_vector_index :: vector_index where
  "notebook_vector_index =
     \<lparr>node_label = ''Task'', text_node_properties = [''name'', ''description'', ''status''],
      embedding_node_property = ''embedding''\<rparr>"

section \<open>Sample environments\<close>

text \<open>
  An environment in which every call succeeds, to run the notebook on: a constructor
  returns an object of its name, the fetched document decodes to a dictionary with one
  query, the similarity search returns one document and a chain answers with a result.
  The world counts the calls made.
\<close>

fun sample_env :: "nat env" where
  "sample_env (Fn name) args kwargs n = (Inr (PObj name []), Suc n)"
| "sample_env (Meth obj name) args kwargs n =
     (if name = ''json'' then
        Inr (PDict [(''query'', PStr ''CREATE (t:Task {name: 'Update', status: 'open'})'')])
      else if name = ''query'' then Inr (PList [])
      else if name = ''similarity_search'' then
        Inr (PList [PObj ''Document'' [(''page_content'', PStr ''name: Update'')]])
      else if name = ''invoke'' then
        Inr (PDict [(''result'', PStr ''TeamD is assigned to maintain PaymentService.'')])
      else Inr (PObj name []),
      Suc n)"

definition sample_graph :: pyval where
  "sample_graph = PObj ''Neo4jGraph'' []"

definition sample_import_query :: pyval where
  "sample_import_query = PStr ''CREATE (t:Task {name: 'Update', status: 'open'})''"

text \<open>An environment in which the network fetch fails and everything else succeeds.\<close>

fun offline_env :: "nat env" where
  "offline_env c args kwargs n =
     (if c = Fn ''requests.get'' then (Inl (LibraryError ''ConnectionError''), Suc n)
      else sample_env c args kwargs n)"

text \<open>
  An environment that answers as the recorded run of
  \<^verbatim>\<open>cypher_chain.invoke("How many open tickets are there?")\<close> did.
\<close>

definition sample_cypher_llm :: pyval where
  "sample_cypher_llm =
     PObj ''ChatGroq'' [(''temperature'', PInt 0), (''model_name'', PStr llama_3_1)]"

definition sample_qa_llm :: pyval where
  "sample_qa_llm = PObj ''ChatGroq'' [(''temperature'', PInt 0)]"

definition sample_question :: pyval where
  "sample_question = PStr ''How many open tickets are there?''"

fun chain_env :: "nat env" where
  "chain_env (Fn name) args kwargs n = (Inr (PObj name []), Suc n)"
| "chain_env (Meth obj name) args kwargs n =
     (if name = ''get_schema'' then
        Inr (PStr ''Node properties: Task {name, description, status}'')
      else if name = ''query'' then Inr (PList [PDict [(''COUNT(t)'', PInt 5)]])
      else if name = ''invoke'' \<and> obj = sample_cypher_llm then
        Inr (PStr ''MATCH (t:Task {status: 'open'}) RETURN COUNT(t)'')
      else if name = ''invoke'' then Inr (PStr ''There are 5 open tickets.'')
      else Inr PNone,
      Suc n)"

text \<open>
  An environment that answers as the recorded run of the agent did: the model first
  chooses the tool \<^verbatim>\<open>Graph\<close>, then gives the final answer.
\<close>

definition sample_agent :: pyval where
  "sample_agent = PObj ''create_react_agent'' []"

definition sample_vector_qa :: pyval where
  "sample_vector_qa = PObj ''RetrievalQA'' []"

definition sample_cypher_chain :: pyval where
  "sample_cypher_chain = PObj ''GraphCypherQAChain'' []"

definition sample_inputs :: pyval where
  "sample_inputs =
     PDict [(''input'', PStr ''Which team is assigned to maintain PaymentService?'')]"

definition sample_answer :: pyval where
  "sample_answer = PStr ''TeamD is assigned to maintain PaymentService.''"

fun react_env :: "nat env" where
  "react_env (Fn name) args kwargs n = (Inr (PObj name []), Suc n)"
| "react_env (Meth obj name) args kwargs n =
     (if name = ''plan'' \<and> n = 0 then
        Inr (PDict [(''Action'', PStr ''Graph''),
                    (''Action Input'',
                     PStr ''Which team is assigned to maintain PaymentService?'')])
      else if name = ''plan'' then Inr (PDict [(''Final Answer'', sample_answer)])
      else if name = ''invoke'' then
        Inr (PDict [(''query'', PStr ''Which team is assigned to maintain PaymentService?''),
                    (''result'', sample_answer)])
      else Inr PNone,
      Suc n)"

text \<open>A graph store with one task and one microservice, and an embedding to try.\<close>

definition sample_store :: "node list" where
  "sample_store =
     [\<lparr>labels = [''Task''],
       properties =
         [(''name'', PStr ''Update''), (''description'', PStr ''Update InventoryService''),
          (''status'', PStr ''in progress'')]\<rparr>,
      \<lparr>labels = [''Microservice''],
       properties = [(''name'', PStr ''Database''), (''technology'', PStr ''SQL'')]\<rparr>]"

fun sample_embed :: "(string \<times> pyval option) list \<Rightarrow> pyval" where
  "sample_embed kvs = PList (map (\<lambda>kv. case snd kv of Some v \<Rightarrow> v | None \<Rightarrow> PNone) kvs)"

section \<open>Properties of calls and of runs\<close>

text \<open>
  A call is named by its function, or by its method with a dot in front, whatever the
  object is.
\<close>

fun callee_name :: "callee \<Rightarrow> string" where
  "callee_name (Fn name) = name"
| "callee_name (Meth obj name) = CHR ''.'' # name"

definition ev_name :: "event \<Rightarrow> string" where
  "ev_name ev = callee_name (ev_callee ev)"

text \<open>The value a call returned, \<^verbatim>\<open>None\<close> for a call that raised.\<close>

fun outcome_value :: "event \<Rightarrow> pyval" where
  "outcome_value (Event c args kwargs (Inr v)) = v"
| "outcome_value (Event c args kwargs (Inl e)) = PNone"

text \<open>
  Three properties of a statement, each preserved by sequencing. \<open>appends Q m\<close>: whatever
  \<open>m\<close> does, it only adds calls, and every call it adds satisfies \<open>Q\<close>.
\<close>

definition appends :: "(event \<Rightarrow> bool) \<Rightarrow> ('w, 'a) prog \<Rightarrow> bool" where
  "appends Q m \<longleftrightarrow> (\<forall>s. \<exists>evs. trace (snd (m s)) = trace s @ evs \<and> list_all Q evs)"

text \<open>
  \<open>follows p ks m\<close>: seen through \<open>p\<close>, the calls \<open>m\<close> adds are the list \<open>ks\<close> when
  \<open>m\<close> completes, and the beginning of \<open>ks\<close> when it raises.
\<close>

definition follows :: "(event \<Rightarrow> 'k) \<Rightarrow> 'k list \<Rightarrow> ('w, 'a) prog \<Rightarrow> bool" where
  "follows p ks m \<longleftrightarrow>
     (\<forall>s. \<exists>evs. trace (snd (m s)) = trace s @ evs \<and>
        (case fst (m s) of
           Inr x \<Rightarrow> map p evs = ks
         | Inl e \<Rightarrow> prefix (map p evs) ks))"

text \<open>
  \<open>faithful evs r\<close>: a call of \<open>evs\<close> that raised is the last of \<open>evs\<close>, and \<open>r\<close> is the
  exception it raised. \<open>propagates m\<close>: the calls \<open>m\<close> adds and its result are so.
\<close>

fun faithful :: "event list \<Rightarrow> error + 'a \<Rightarrow> bool" where
  "faithful [] r = True"
| "faithful (ev # evs) r =
     (case ev_outcome ev of Inr v \<Rightarrow> faithful evs r | Inl e \<Rightarrow> evs = [] \<and> r = Inl e)"

definition propagates :: "('w, 'a) prog \<Rightarrow> bool" where
  "propagates m \<longleftrightarrow>
     (\<forall>s. \<exists>evs. trace (snd (m s)) = trace s @ evs \<and> faithful evs (fst (m s)))"

text \<open>The names of the calls of a run that completes, cell after cell.\<close>

definition script :: "string list" where
  "script =
     [''Neo4jGraph'',
      ''requests.get'', ''.json'', ''.query'',
      ''OllamaEmbeddings'', ''Neo4jVector.from_existing_graph'',
      ''.similarity_search'',
      ''ChatGroq'', ''.as_retriever'', ''RetrievalQA.from_chain_type'',
      ''.invoke'',
      ''.invoke'',
      ''.query'',
      ''.refresh_schema'', ''ChatGroq'', ''ChatGroq'', ''GraphCypherQAChain.from_llm'',
      ''.invoke'',
      ''.invoke'',
      ''.invoke'',
      ''.invoke'',
      ''Tool'', ''Tool'', ''PromptTemplate.from_template'', ''ChatGroq'',
      ''create_react_agent'', ''AgentExecutor'', ''.invoke'',
      ''.invoke'']"

text \<open>
  The calls of a run that completes, given the values \<open>vs\<close> that the twenty-nine calls
  returned and the query that was imported: every argument is a literal of the notebook
  or the value an earlier call returned.
\<close>

definition complete_trace :: "pyval list \<Rightarrow> pyval \<Rightarrow> event list" where
  "complete_trace vs import_query =
     (let graph = vs ! 0; r = vs ! 1; j = vs ! 2; embedding = vs ! 4; vector_index = vs ! 5;
          llm_qa = vs ! 7; retriever = vs ! 8; vector_qa = vs ! 9;
          cypher_llm = vs ! 14; qa_llm = vs ! 15; cypher_chain = vs ! 16;
          tasks_tool = vs ! 21; graph_tool = vs ! 22; prompt = vs ! 23; llm = vs ! 24;
          agent = vs ! 25; agent_executor = vs ! 26
      in
      [Event (Fn ''Neo4jGraph'') []
         [(''url'', PStr url), (''username'', PStr username), (''password'', PStr password)]
         (Inr graph),
       Event (Fn ''requests.get'') [PStr import_url] [] (Inr r),
       Event (Meth r ''json'') [] [] (Inr j),
       Event (Meth graph ''query'') [import_query] [] (Inr (vs ! 3)),
       Event (Fn ''OllamaEmbeddings'') [] [(''model'', PStr ''llama3'')] (Inr embedding),
       Event (Fn ''Neo4jVector.from_existing_graph'') [] (from_existing_graph_kwargs embedding)
         (Inr vector_index),
       Event (Meth vector_index ''similarity_search'')
         [PStr ''How will RecommendationService be updated?''] [] (Inr (vs ! 6)),
       Event (Fn ''ChatGroq'') [] [(''model_name'', PStr llama_3_1)] (Inr llm_qa),
       Event (Meth vector_index ''as_retriever'') [] [] (Inr retriever),
       Event (Fn ''RetrievalQA.from_chain_type'') []
         [(''llm'', llm_qa), (''chain_type'', PStr ''stuff''), (''retriever'', retriever)]
         (Inr vector_qa),
       Event (Meth vector_qa ''invoke'')
         [PDict [(''query'', PStr ''How will recommendation service be updated?'')]] []
         (Inr (vs ! 10)),
       Event (Meth vector_qa ''invoke'') [PStr ''How many open tickets are there?''] []
         (Inr (vs ! 11)),
       Event (Meth graph ''query'') [PStr count_query] [] (Inr (vs ! 12)),
       Event (Meth graph ''refresh_schema'') [] [] (Inr (vs ! 13)),
       Event (Fn ''ChatGroq'') []
         [(''temperature'', PInt 0), (''model_name'', PStr llama_3_1)] (Inr cypher_llm),
       Event (Fn ''ChatGroq'') [] [(''temperature'', PInt 0)] (Inr qa_llm),
       Event (Fn ''GraphCypherQAChain.from_llm'') []
         [(''cypher_llm'', cypher_llm), (''qa_llm'', qa_llm), (''graph'', graph),
          (''verbose'', PBool True)]
         (Inr cypher_chain),
       Event (Meth cypher_chain ''invoke'') [PStr ''How many open tickets are there?''] []
         (Inr (vs ! 17)),
       Event (Meth cypher_chain ''invoke'') [PStr ''Which Team has the most open Tasks?''] []
         (Inr (vs ! 18)),
       Event (Meth cypher_chain ''invoke'')
         [PStr ''Which services depend on Database directly?''] [] (Inr (vs ! 19)),
       Event (Meth cypher_chain ''invoke'')
         [PStr ''Which services depend on Database indirectly?''] [] (Inr (vs ! 20)),
       Event (Fn ''Tool'') [] (tasks_tool_kwargs vector_qa) (Inr tasks_tool),
       Event (Fn ''Tool'') [] (graph_tool_kwargs cypher_chain) (Inr graph_tool),
       Event (Fn ''PromptTemplate.from_template'') [PStr template] [] (Inr prompt),
       Event (Fn ''ChatGroq'') []
         [(''temperature'', PInt 0), (''model_name'', PStr llama_3_1)] (Inr llm),
       Event (Fn ''create_react_agent'') []
         [(''llm'', llm), (''tools'', PList [tasks_tool, graph_tool]), (''prompt'', prompt),
          (''stop_sequence'', PBool True)]
         (Inr agent),
       Event (Fn ''AgentExecutor'') []
         [(''agent'', agent), (''tools'', PList [tasks_tool, graph_tool]),
          (''verbose'', PBool True), (''max_iterations'', PInt (int max_iterations))]
         (Inr agent_executor),
       Event (Meth agent_executor ''invoke'')
         [PDict [(''input'', PStr ''Which team is assigned to maintain PaymentService?'')]] []
         (Inr (vs ! 27)),
       Event (Meth agent_executor ''invoke'')
         [PDict [(''input'', PStr ''What tasks have optimization in their description?'')]] []
         (Inr (vs ! 28))])"

subsection \<open>The words of the claims\<close>

text \<open>The network fetch, and a query submitted to the graph client.\<close>

definition is_fetch :: "event \<Rightarrow> bool" where
  "is_fetch ev \<longleftrightarrow> ev_name ev = ''requests.get''"

definition is_query :: "event \<Rightarrow> bool" where
  "is_query ev \<longleftrightarrow> ev_name ev = ''.query''"

text \<open>
  The fetched content that the notebook can see is the document that \<^verbatim>\<open>.json()\<close> decodes
  from the response; what is submitted is what \<^verbatim>\<open>.query\<close> is called with.
\<close>

definition fetched :: "event list \<Rightarrow> pyval list" where
  "fetched evs = map outcome_value (filter (\<lambda>ev. ev_name ev = ''.json'') evs)"

definition submitted :: "event list \<Rightarrow> pyval list" where
  "submitted evs = concat (map ev_args (filter is_query evs))"

text \<open>The construction of the vector index adapter.\<close>

definition is_vector_index :: "event \<Rightarrow> bool" where
  "is_vector_index ev \<longleftrightarrow> ev_name ev = ''Neo4jVector.from_existing_graph''"

text \<open>
  In the agent loop, asking the model is the call of \<^verbatim>\<open>plan\<close>; the final answer of a call
  is the answer the model gave in it, if it gave one.
\<close>

definition is_plan :: "event \<Rightarrow> bool" where
  "is_plan ev \<longleftrightarrow> ev_name ev = ''.plan''"

fun final_answer :: "event \<Rightarrow> pyval option" where
  "final_answer (Event c args kwargs (Inr reply)) =
     (if callee_name c = ''.plan''
      then (case choice_of reply of Inr (Final answer) \<Rightarrow> Some answer | _ \<Rightarrow> None)
      else None)"
| "final_answer (Event c args kwargs (Inl e)) = None"

text \<open>
  \<open>stops_at_final evs r\<close>: a call of \<open>evs\<close> in which the model gave its final answer is
  the last of \<open>evs\<close>, and \<open>r\<close> is that answer. \<open>capped n evs r\<close>: moreover the model was
  asked at most \<open>n\<close> times and at most \<open>n\<close> other calls were made.
\<close>

fun stops_at_final :: "event list \<Rightarrow> error + pyval \<Rightarrow> bool" where
  "stops_at_final [] r = True"
| "stops_at_final (ev # evs) r =
     (case final_answer ev of
        Some answer \<Rightarrow> evs = [] \<and> r = Inr answer
      | None \<Rightarrow> stops_at_final evs r)"

definition capped :: "nat \<Rightarrow> event list \<Rightarrow> error + pyval \<Rightarrow> bool" where
  "capped n evs r \<longleftrightarrow>
     length (filter is_plan evs) \<le> n \<and>
     length (filter (\<lambda>ev. \<not> is_plan ev) evs) \<le> n \<and>
     stops_at_final evs r"

definition tool_call :: "pyval \<Rightarrow> pyval \<Rightarrow> event \<Rightarrow> bool" where
  "tool_call vector_qa cypher_chain ev \<longleftrightarrow>
     ev_callee ev = Meth vector_qa ''invoke'' \<or> ev_callee ev = Meth cypher_chain ''invoke''"

text \<open>The construction of a client of the hosted language model.\<close>

definition llm_client :: "event \<Rightarrow> bool" where
  "llm_client ev \<longleftrightarrow> ev_name ev = ''ChatGroq''"

definition given_model_and_temperature :: "event \<Rightarrow> bool" where
  "given_model_and_temperature ev \<longleftrightarrow>
     map_of (ev_kwargs ev) ''model_name'' \<noteq> None \<and>
     map_of (ev_kwargs ev) ''temperature'' \<noteq> None"

definition llm_parameters :: "event \<Rightarrow> bool" where
  "llm_parameters ev \<longleftrightarrow>
     (llm_client ev \<longrightarrow>
        ev_args ev = [] \<and>
        (ev_kwargs ev = [(''model_name'', PStr llama_3_1)] \<or>
         ev_kwargs ev = [(''temperature'', PInt 0), (''model_name'', PStr llama_3_1)] \<or>
         ev_kwargs ev = [(''temperature'', PInt 0)]))"

text \<open>
  The connection a call is given, and the calls that construct a component connected to
  the graph database.
\<close>

definition connection :: "event \<Rightarrow> pyval option \<times> pyval option \<times> pyval option" where
  "connection ev =
     (map_of (ev_kwargs ev) ''url'', map_of (ev_kwargs ev) ''username'',
      map_of (ev_kwargs ev) ''password'')"

definition connects :: "event \<Rightarrow> bool" where
  "connects ev \<longleftrightarrow>
     ev_name ev = ''Neo4jGraph'' \<or> ev_name ev = ''Neo4jVector.from_existing_graph''"

definition same_store :: "event \<Rightarrow> bool" where
  "same_store ev \<longleftrightarrow>
     connection ev =
       (if connects ev then (Some (PStr url), Some (PStr username), Some (PStr password))
        else (None, None, None))"

text \<open>The construction of a tool.\<close>

definition is_tool :: "event \<Rightarrow> bool" where
  "is_tool ev \<longleftrightarrow> ev_name ev = ''Tool''"

section \<open>Subscripts\<close>

text \<open>An entry of a dictionary is never the dictionary itself.\<close>

lemma entry_smaller: "map_of kvs k = Some v \<Longrightarrow> size v < size (PDict kvs)"
  by (induction kvs) (auto split: if_splits)

lemma subscript_not_self: "subscript j k = Inr q \<Longrightarrow> q \<noteq> j"
proof (cases j)
  case (PDict kvs)
  assume "subscript j k = Inr q"
  then have "map_of kvs k = Some q" using PDict by (auto split: option.splits)
  from entry_smaller[OF this] show ?thesis using PDict by auto
qed auto

section \<open>Sequencing\<close>

lemma bind_assoc: "bind (bind m f) g = bind m (\<lambda>x. bind (f x) g)"
  by (rule ext) (simp add: bind_def split: prod.split sum.split)

lemmas cell_defs = cell_graph_def cell_import_def cell_vector_index_def
  cell_similarity_search_def cell_print_response_def cell_vector_qa_def
  cell_vector_qa_update_def cell_vector_qa_count_def cell_count_open_def
  cell_cypher_chain_def cell_cypher_invoke_def cell_agent_def cell_agent_tasks_def
  cells_after_import_def notebook_def

lemmas run_defs = bind_def call_def return_def lift_def print_def setenv_def init_def Let_def

lemma new_events_init: "new_events m (init w) = trace (snd (m (init w)))"
  by (simp add: new_events_def init_def)

subsection \<open>A statement that completes\<close>

lemma bind_InrE:
  assumes "bind m f s = (Inr y, s')"
  obtains x s1 where "m s = (Inr x, s1)" "f x s1 = (Inr y, s')"
  using assms by (auto simp: bind_def split: prod.splits sum.splits)

lemma call_InrE:
  assumes "call E c args kwargs s = (Inr v, s')"
  obtains "trace s' = trace s @ [Event c args kwargs (Inr v)]"
  using assms by (auto simp: call_def split: prod.splits)

lemma lift_InrE:
  assumes "lift r s = (Inr v, s')"
  obtains "r = Inr v" "s' = s"
  using assms by (auto simp: lift_def)

lemma return_InrE:
  assumes "return x s = (Inr v, s')"
  obtains "v = x" "s' = s"
  using assms by (auto simp: return_def)

lemma print_InrE:
  assumes "print vs s = (Inr v, s')"
  obtains "trace s' = trace s"
  using assms by (auto simp: print_def)

lemma setenv_InrE:
  assumes "setenv k x s = (Inr v, s')"
  obtains "trace s' = trace s"
  using assms by (auto simp: setenv_def)

subsection \<open>Every call a statement adds\<close>

lemma appends_return: "appends Q (return x)"
  by (simp add: appends_def return_def)

lemma appends_lift: "appends Q (lift r)"
  by (simp add: appends_def lift_def)

lemma appends_print: "appends Q (print vs)"
  by (simp add: appends_def print_def)

lemma appends_setenv: "appends Q (setenv k v)"
  by (simp add: appends_def setenv_def)

lemma appends_call: "(\<And>r. Q (Event c args kwargs r)) \<Longrightarrow> appends Q (call E c args kwargs)"
  by (simp add: appends_def call_def split: prod.split)

lemma appends_bind:
  assumes m: "appends Q m" and f: "\<And>x. appends Q (f x)"
  shows "appends Q (bind m f)"
  unfolding appends_def
proof
  fix s
  obtain r s1 where ms: "m s = (r, s1)" by (cases "m s")
  from m[unfolded appends_def, rule_format, of s] ms
  obtain evs where e1: "trace s1 = trace s @ evs" "list_all Q evs" by auto
  show "\<exists>evs. trace (snd (bind m f s)) = trace s @ evs \<and> list_all Q evs"
  proof (cases r)
    case (Inl e)
    then show ?thesis using ms e1 by (simp add: bind_def)
  next
    case (Inr x)
    from f[of x, unfolded appends_def, rule_format, of s1]
    obtain evs' where e2: "trace (snd (f x s1)) = trace s1 @ evs'" "list_all Q evs'" by auto
    have "trace (snd (bind m f s)) = trace s @ (evs @ evs')"
      using ms Inr e1 e2 by (simp add: bind_def)
    moreover have "list_all Q (evs @ evs')" using e1 e2 by simp
    ultimately show ?thesis by blast
  qed
qed

lemma appends_for_each: "(\<And>x. appends Q (body x)) \<Longrightarrow> appends Q (for_each xs body)"
  by (induction xs) (simp_all add: appends_return appends_bind)

lemmas appends_intros = appends_return appends_lift appends_print appends_setenv
  appends_bind appends_for_each appends_call

lemma appends_new_events: "appends Q m \<Longrightarrow> \<forall>ev \<in> set (new_events m s). Q ev"
proof -
  assume "appends Q m"
  then obtain evs where "trace (snd (m s)) = trace s @ evs" "list_all Q evs"
    unfolding appends_def by blast
  then show ?thesis by (simp add: new_events_def list_all_iff)
qed

lemma appends_calls: "appends Q (notebook E) \<Longrightarrow> \<forall>ev \<in> set (calls E w). Q ev"
  using appends_new_events[of Q "notebook E" "init w"]
  by (simp add: new_events_init calls_def)

lemma appends_silent: "appends (\<lambda>ev. False) m \<Longrightarrow> trace (snd (m s)) = trace s"
proof -
  assume "appends (\<lambda>ev. False) m"
  then obtain evs where e: "trace (snd (m s)) = trace s @ evs" "list_all (\<lambda>ev. False) evs"
    unfolding appends_def by blast
  then have "evs = []" by (cases evs) auto
  then show ?thesis using e by simp
qed

lemma cell_print_response_silent: "trace (snd (cell_print_response response s)) = trace s"
  by (rule appends_silent) (unfold cell_print_response_def, intro appends_intros)

lemma cell_print_response_InrE:
  assumes "cell_print_response response s = (Inr v, s')"
  obtains "trace s' = trace s"
  using cell_print_response_silent[of response s] assms by simp

subsection \<open>The calls of a statement, in order\<close>

lemma follows_return: "follows p [] (return x)"
  by (simp add: follows_def return_def)

lemma follows_print: "follows p [] (print vs)"
  by (simp add: follows_def print_def)

lemma follows_lift: "follows p [] (lift r)"
  by (simp add: follows_def lift_def split: sum.split)

lemma follows_setenv: "follows p [] (setenv k v)"
  by (simp add: follows_def setenv_def)

lemma follows_call:
  "(\<And>r. p (Event c args kwargs r) = k) \<Longrightarrow> follows p [k] (call E c args kwargs)"
  by (auto simp: follows_def call_def split: prod.split sum.split)

lemma follows_bind:
  assumes m: "follows p ks1 m" and f: "\<And>x. follows p ks2 (f x)"
  shows "follows p (ks1 @ ks2) (bind m f)"
  unfolding follows_def
proof
  fix s
  obtain r s1 where ms: "m s = (r, s1)" by (cases "m s")
  from m[unfolded follows_def, rule_format, of s] ms
  obtain evs where e1: "trace s1 = trace s @ evs"
    "case r of Inr x \<Rightarrow> map p evs = ks1 | Inl e \<Rightarrow> prefix (map p evs) ks1"
    by auto
  show "\<exists>evs. trace (snd (bind m f s)) = trace s @ evs \<and>
        (case fst (bind m f s) of Inr x \<Rightarrow> map p evs = ks1 @ ks2
         | Inl e \<Rightarrow> prefix (map p evs) (ks1 @ ks2))"
  proof (cases r)
    case (Inl e)
    then have "bind m f s = (Inl e, s1)" using ms by (simp add: bind_def)
    then show ?thesis using e1 Inl by (auto intro: prefix_order.trans)
  next
    case (Inr x)
    then have b: "bind m f s = f x s1" using ms by (simp add: bind_def)
    from f[of x, unfolded follows_def, rule_format, of s1]
    obtain evs' where e2: "trace (snd (f x s1)) = trace s1 @ evs'"
      "case fst (f x s1) of Inr y \<Rightarrow> map p evs' = ks2
       | Inl e \<Rightarrow> prefix (map p evs') ks2"
      by auto
    have "trace (snd (bind m f s)) = trace s @ (evs @ evs')"
      using b e1 e2 by simp
    moreover have "case fst (bind m f s) of Inr y \<Rightarrow> map p (evs @ evs') = ks1 @ ks2
         | Inl e \<Rightarrow> prefix (map p (evs @ evs')) (ks1 @ ks2)"
      using b e1 e2 Inr by (auto split: sum.splits)
    ultimately show ?thesis by blast
  qed
qed

lemma follows_call_bind:
  "(\<And>r. p (Event c args kwargs r) = k) \<Longrightarrow> (\<And>x. follows p ks (f x)) \<Longrightarrow>
     follows p (k # ks) (bind (call E c args kwargs) f)"
  using follows_bind[OF follows_call, of p c args kwargs k ks f E] by simp

lemma follows_silent_bind:
  "follows p [] m \<Longrightarrow> (\<And>x. follows p ks (f x)) \<Longrightarrow> follows p ks (bind m f)"
  using follows_bind[of p "[]" m ks f] by simp

lemma follows_for_each: "(\<And>x. follows p [] (body x)) \<Longrightarrow> follows p [] (for_each xs body)"
  by (induction xs) (simp_all add: follows_return follows_silent_bind)

lemma follows_init:
  assumes "follows p ks m"
  shows "prefix (map p (trace (snd (m (init w))))) ks"
    and "fst (m (init w)) = Inr x \<Longrightarrow> map p (trace (snd (m (init w)))) = ks"
proof -
  from assms[unfolded follows_def, rule_format, of "init w"]
  obtain evs where e: "trace (snd (m (init w))) = trace (init w) @ evs"
    "case fst (m (init w)) of Inr x \<Rightarrow> map p evs = ks | Inl e \<Rightarrow> prefix (map p evs) ks"
    by auto
  then have t: "trace (snd (m (init w))) = evs" by (simp add: init_def)
  show "prefix (map p (trace (snd (m (init w))))) ks"
    using e(2) t by (auto split: sum.splits)
  show "fst (m (init w)) = Inr x \<Longrightarrow> map p (trace (snd (m (init w)))) = ks"
    using e(2) t by (auto split: sum.splits)
qed

lemma prefix_filter_length: "prefix xs ys \<Longrightarrow> length (filter P xs) \<le> length (filter P ys)"
  by (auto simp: prefix_def)

subsection \<open>A call that raises\<close>

lemma faithful_append:
  "faithful evs (Inr x :: error + 'a) \<Longrightarrow> faithful evs' (r :: error + 'b) \<Longrightarrow>
     faithful (evs @ evs') r"
  by (induction evs) (auto split: sum.splits)

lemma faithful_retype:
  "faithful evs (Inl e :: error + 'a) \<Longrightarrow> faithful evs (Inl e :: error + 'b)"
  by (induction evs) (auto split: sum.splits)

lemma faithful_nth:
  "faithful evs r \<Longrightarrow> i < length evs \<Longrightarrow> ev_outcome (evs ! i) = Inl e \<Longrightarrow>
     Suc i = length evs \<and> r = Inl e"
proof (induction evs arbitrary: i)
  case Nil
  then show ?case by simp
next
  case (Cons ev evs)
  show ?case
  proof (cases i)
    case 0
    then show ?thesis using Cons.prems by (auto split: sum.splits)
  next
    case (Suc j)
    then have "ev_outcome (evs ! j) = Inl e" "j < length evs" using Cons.prems by auto
    moreover have "faithful evs r" using Cons.prems Suc by (auto split: sum.splits)
    ultimately show ?thesis using Cons.IH[of j] Suc by simp
  qed
qed

lemma propagates_return: "propagates (return x)"
  by (simp add: propagates_def return_def)

lemma propagates_lift: "propagates (lift r)"
  by (simp add: propagates_def lift_def)

lemma propagates_print: "propagates (print vs)"
  by (simp add: propagates_def print_def)

lemma propagates_setenv: "propagates (setenv k v)"
  by (simp add: propagates_def setenv_def)

lemma propagates_call: "propagates (call E c args kwargs)"
  by (simp add: propagates_def call_def split: prod.split sum.split)

lemma propagates_bind:
  assumes m: "propagates m" and f: "\<And>x. propagates (f x)"
  shows "propagates (bind m f)"
  unfolding propagates_def
proof
  fix s
  obtain r s1 where ms: "m s = (r, s1)" by (cases "m s")
  from m[unfolded propagates_def, rule_format, of s] ms
  obtain evs where e1: "trace s1 = trace s @ evs" "faithful evs r" by auto
  show "\<exists>evs. trace (snd (bind m f s)) = trace s @ evs \<and> faithful evs (fst (bind m f s))"
  proof (cases r)
    case (Inl e)
    then have "bind m f s = (Inl e, s1)" using ms by (simp add: bind_def)
    then show ?thesis using e1 Inl faithful_retype by fastforce
  next
    case (Inr x)
    then have b: "bind m f s = f x s1" using ms by (simp add: bind_def)
    from f[of x, unfolded propagates_def, rule_format, of s1]
    obtain evs' where e2: "trace (snd (f x s1)) = trace s1 @ evs'"
      "faithful evs' (fst (f x s1))" by auto
    have "trace (snd (bind m f s)) = trace s @ (evs @ evs')" using b e1 e2 by simp
    moreover have "faithful (evs @ evs') (fst (bind m f s))"
      using b e1 e2 Inr faithful_append by fastforce
    ultimately show ?thesis by blast
  qed
qed

lemma propagates_for_each: "(\<And>x. propagates (body x)) \<Longrightarrow> propagates (for_each xs body)"
  by (induction xs) (simp_all add: propagates_return propagates_bind)

section \<open>The runs of the notebook\<close>

lemma notebook_propagates: "propagates (notebook E)"
  unfolding cell_defs Let_def
  by (intro propagates_bind propagates_call propagates_return propagates_lift
        propagates_print propagates_setenv propagates_for_each)

lemma notebook_follows_script: "follows ev_name script (notebook E)"
  unfolding cell_defs Let_def bind_assoc script_def
  by (intro follows_call_bind follows_silent_bind follows_call follows_return follows_print
        follows_lift follows_setenv follows_for_each)
     (simp_all add: ev_name_def)

lemma calls_prefix_script: "prefix (map ev_name (calls E w)) script"
  unfolding calls_def by (rule follows_init(1)[OF notebook_follows_script])

lemma calls_script: "outcome E w = Inr () \<Longrightarrow> map ev_name (calls E w) = script"
  unfolding calls_def outcome_def by (rule follows_init(2)[OF notebook_follows_script])

lemma cell_import_complete:
  assumes "cell_import E graph s = (Inr import_query, s')"
  shows "\<exists>r j out. trace s' = trace s @
           [Event (Fn ''requests.get'') [PStr import_url] [] (Inr r),
            Event (Meth r ''json'') [] [] (Inr j),
            Event (Meth graph ''query'') [import_query] [] (Inr out)] \<and>
         subscript j ''query'' = Inr import_query"
  using assms unfolding cell_import_def
  by (elim bind_InrE call_InrE lift_InrE return_InrE) auto

lemma complete_trace_length: "length (complete_trace vs q) = 29"
  by (simp add: complete_trace_def Let_def)

lemma notebook_complete:
  assumes "notebook E s = (Inr u, s')"
  shows "\<exists>vs import_query. length vs = 29 \<and>
           trace s' = trace s @ complete_trace vs import_query \<and>
           subscript (vs ! 2) ''query'' = Inr import_query"
proof -
  let ?evs = "drop (length (trace s)) (trace s')"
  from assms have "length (map outcome_value ?evs) = 29 \<and>
      trace s' = trace s @ complete_trace (map outcome_value ?evs) (hd (ev_args (?evs ! 3))) \<and>
      subscript (map outcome_value ?evs ! 2) ''query'' = Inr (hd (ev_args (?evs ! 3)))"
    unfolding cell_graph_def cell_import_def cell_vector_index_def
      cell_similarity_search_def cell_vector_qa_def cell_vector_qa_update_def
      cell_vector_qa_count_def cell_count_open_def cell_cypher_chain_def
      cell_cypher_invoke_def cell_agent_def cell_agent_tasks_def cells_after_import_def
      notebook_def Let_def
    apply (elim bind_InrE call_InrE lift_InrE return_InrE print_InrE setenv_InrE
        cell_print_response_InrE)
    apply (simp add: complete_trace_def Let_def)
    done
  then show ?thesis by blast
qed

lemma calls_complete:
  assumes "outcome E w = Inr u"
  shows "\<exists>vs import_query. length vs = 29 \<and> calls E w = complete_trace vs import_query \<and>
           subscript (vs ! 2) ''query'' = Inr import_query"
proof -
  obtain s' where r: "notebook E (init w) = (Inr u, s')"
    using assms by (cases "notebook E (init w)") (simp add: outcome_def)
  from notebook_complete[OF r] show ?thesis
    using r by (simp add: init_def calls_def)
qed

lemma sample_completes: "outcome sample_env 0 = Inr ()"
  by (simp add: outcome_def cell_defs run_defs)

section \<open>The agent loop with the notebook's tools\<close>

lemma execute_events:
  "\<exists>evs. trace (snd (execute E (notebook_tools vq cc) name tool_input s)) = trace s @ evs \<and>
     length evs \<le> 1 \<and> (\<forall>ev \<in> set evs. tool_call vq cc ev)"
  by (auto simp: execute_def notebook_tools_def tasks_tool_kwargs_def graph_tool_kwargs_def
      return_def lift_def call_def tool_call_def split: prod.split option.split)

lemma tool_call_not_plan: "tool_call vq cc ev \<Longrightarrow> \<not> is_plan ev"
  by (auto simp: is_plan_def ev_name_def tool_call_def)

lemma tool_call_not_final: "tool_call vq cc ev \<Longrightarrow> final_answer ev = None"
  by (cases ev; cases "ev_outcome ev") (auto simp: tool_call_def)

lemma stops_at_final_nth:
  "stops_at_final evs r \<Longrightarrow> i < length evs \<Longrightarrow> final_answer (evs ! i) = Some answer \<Longrightarrow>
     Suc i = length evs \<and> r = Inr answer"
proof (induction evs arbitrary: i)
  case Nil
  then show ?case by simp
next
  case (Cons ev evs)
  show ?case
  proof (cases i)
    case 0
    then show ?thesis using Cons.prems by auto
  next
    case (Suc j)
    then have "final_answer (evs ! j) = Some answer" "j < length evs" using Cons.prems by auto
    moreover have "stops_at_final evs r"
      using Cons.prems Suc by (cases "final_answer ev") auto
    ultimately show ?thesis using Cons.IH[of j] Suc by simp
  qed
qed

lemma agent_loop_capped:
  "\<exists>evs. trace (snd (agent_loop E agent (notebook_tools vq cc) input n obs s)) = trace s @ evs \<and>
     capped n evs (fst (agent_loop E agent (notebook_tools vq cc) input n obs s)) \<and>
     (\<forall>ev \<in> set evs. is_plan ev \<or> tool_call vq cc ev)"
proof (induction n arbitrary: obs s)
  case 0
  then show ?case by (simp add: return_def capped_def)
next
  case (Suc n)
  let ?loop = "agent_loop E agent (notebook_tools vq cc) input"
  let ?c = "call E (Meth agent ''plan'') [PList obs, input] []"
  obtain r s1 where c: "?c s = (r, s1)" by (cases "?c s")
  let ?ev = "Event (Meth agent ''plan'') [PList obs, input] [] r"
  have t1: "trace s1 = trace s @ [?ev]"
    using c by (auto simp: call_def split: prod.splits)
  have p: "is_plan ?ev" by (simp add: is_plan_def ev_name_def)
  show ?case
  proof (cases r)
    case (Inl e)
    then have "?loop (Suc n) obs s = (Inl e, s1)"
      using c by (simp add: bind_def)
    moreover have "final_answer ?ev = None" using Inl by simp
    ultimately show ?thesis using t1 p by (auto simp: capped_def)
  next
    case (Inr reply)
    show ?thesis
    proof (cases "choice_of reply")
      case (Inl e)
      then have "?loop (Suc n) obs s = (Inl e, s1)"
        using c Inr by (simp add: bind_def lift_def)
      moreover have "final_answer ?ev = None" using Inl Inr by simp
      ultimately show ?thesis using t1 p by (auto simp: capped_def)
    next
      case ch: (Inr choice)
      show ?thesis
      proof (cases choice)
        case (Final answer)
        then have "?loop (Suc n) obs s = (Inr answer, s1)"
          using c Inr ch by (simp add: bind_def lift_def return_def)
        moreover have "final_answer ?ev = Some answer" using Inr ch Final by simp
        ultimately show ?thesis using t1 p by (auto simp: capped_def)
      next
        case (Action name tool_input)
        have nf: "final_answer ?ev = None" using Inr ch Action by simp
        let ?x = "execute E (notebook_tools vq cc) name tool_input"
        obtain ro s2 where x: "?x s1 = (ro, s2)" by (cases "?x s1")
        from execute_events[of E vq cc name tool_input s1] x
        obtain evs1 where e1: "trace s2 = trace s1 @ evs1" "length evs1 \<le> 1"
          "\<forall>ev \<in> set evs1. tool_call vq cc ev"
          by auto
        have np: "filter is_plan evs1 = []" "filter (\<lambda>ev. \<not> is_plan ev) evs1 = evs1"
          using e1(3) tool_call_not_plan by (auto simp: filter_empty_conv filter_id_conv)
        have nfs: "\<forall>ev \<in> set evs1. final_answer ev = None"
          using e1(3) tool_call_not_final by blast
        have skip: "\<And>evs r. stops_at_final (?ev # evs1 @ evs) r = stops_at_final evs r"
          using nf nfs e1(2) by (cases evs1) auto
        show ?thesis
        proof (cases ro)
          case (Inl e)
          then have "?loop (Suc n) obs s = (Inl e, s2)"
            using c Inr ch Action x by (simp add: bind_def lift_def)
          moreover have "stops_at_final (?ev # evs1) (Inl e)"
            using skip[of "[]" "Inl e"] by simp
          ultimately show ?thesis using t1 e1 p np by (auto simp: capped_def)
        next
          case ob: (Inr observation)
          let ?rest = "?loop n (obs @ [PList [reply, observation]])"
          have step: "?loop (Suc n) obs s = ?rest s2"
            using c Inr ch Action x ob by (simp add: bind_def lift_def)
          from Suc.IH[of "obs @ [PList [reply, observation]]" s2]
          obtain evs2 where e2: "trace (snd (?rest s2)) = trace s2 @ evs2"
            "capped n evs2 (fst (?rest s2))"
            "\<forall>ev \<in> set evs2. is_plan ev \<or> tool_call vq cc ev" by blast
          have tr: "trace (snd (?loop (Suc n) obs s)) = trace s @ (?ev # evs1 @ evs2)"
            using step t1 e1 e2 by simp
          have "capped (Suc n) (?ev # evs1 @ evs2) (fst (?loop (Suc n) obs s))"
            using p np e1(2) e2(2) skip step unfolding capped_def by simp
          moreover have "\<forall>ev \<in> set (?ev # evs1 @ evs2). is_plan ev \<or> tool_call vq cc ev"
            using p e1(3) e2(3) by auto
          ultimately show ?thesis using tr by blast
        qed
      qed
    qed
  qed
qed

lemma agent_loop_reason:
  "fst (agent_loop E agent (notebook_tools vq cc) input n obs s) = Inr a \<Longrightarrow>
   \<exists>evs. trace (snd (agent_loop E agent (notebook_tools vq cc) input n obs s)) = trace s @ evs \<and>
     ((evs \<noteq> [] \<and> final_answer (last evs) = Some a) \<or> length (filter is_plan evs) = n)"
proof (induction n arbitrary: obs s)
  case 0
  then show ?case by (simp add: return_def)
next
  case (Suc n)
  let ?loop = "agent_loop E agent (notebook_tools vq cc) input"
  let ?c = "call E (Meth agent ''plan'') [PList obs, input] []"
  obtain r s1 where c: "?c s = (r, s1)" by (cases "?c s")
  let ?ev = "Event (Meth agent ''plan'') [PList obs, input] [] r"
  have t1: "trace s1 = trace s @ [?ev]"
    using c by (auto simp: call_def split: prod.splits)
  have p: "is_plan ?ev" by (simp add: is_plan_def ev_name_def)
  from Suc.prems c obtain reply where r: "r = Inr reply"
    by (cases r) (auto simp: bind_def)
  from Suc.prems c r obtain choice where ch: "choice_of reply = Inr choice"
    by (cases "choice_of reply") (auto simp: bind_def lift_def)
  show ?case
  proof (cases choice)
    case (Final answer)
    then have "?loop (Suc n) obs s = (Inr answer, s1)"
      using c r ch by (simp add: bind_def lift_def return_def)
    moreover have "final_answer ?ev = Some answer" using r ch Final by simp
    ultimately show ?thesis using t1 Suc.prems by auto
  next
    case (Action name tool_input)
    let ?x = "execute E (notebook_tools vq cc) name tool_input"
    obtain ro s2 where x: "?x s1 = (ro, s2)" by (cases "?x s1")
    from execute_events[of E vq cc name tool_input s1] x
    obtain evs1 where e1: "trace s2 = trace s1 @ evs1"
      "\<forall>ev \<in> set evs1. tool_call vq cc ev"
      by auto
    have np: "filter is_plan evs1 = []"
      using e1(2) tool_call_not_plan by (auto simp: filter_empty_conv)
    from Suc.prems c r ch Action x obtain observation where ob: "ro = Inr observation"
      by (cases ro) (auto simp: bind_def lift_def)
    let ?rest = "?loop n (obs @ [PList [reply, observation]])"
    have step: "?loop (Suc n) obs s = ?rest s2"
      using c r ch Action x ob by (simp add: bind_def lift_def)
    then have "fst (?rest s2) = Inr a" using Suc.prems by simp
    from Suc.IH[OF this]
    obtain evs2 where e2: "trace (snd (?rest s2)) = trace s2 @ evs2"
      "(evs2 \<noteq> [] \<and> final_answer (last evs2) = Some a) \<or> length (filter is_plan evs2) = n"
      by blast
    have tr: "trace (snd (?loop (Suc n) obs s)) = trace s @ (?ev # evs1 @ evs2)"
      using step t1 e1 e2 by simp
    have "(?ev # evs1 @ evs2 \<noteq> [] \<and> final_answer (last (?ev # evs1 @ evs2)) = Some a) \<or>
        length (filter is_plan (?ev # evs1 @ evs2)) = Suc n"
      using e2(2) p np by auto
    then show ?thesis using tr by blast
  qed
qed

lemma agent_run_reason:
  assumes "fst (agent_run E agent vq cc inputs w) = Inr v"
  shows "\<exists>input answer. v = PDict [(''input'', input), (''output'', answer)] \<and>
     ((trace (snd (agent_run E agent vq cc inputs w)) \<noteq> [] \<and>
       final_answer (last (trace (snd (agent_run E agent vq cc inputs w)))) = Some answer) \<or>
      length (filter is_plan (trace (snd (agent_run E agent vq cc inputs w)))) = max_iterations)"
proof (cases "subscript inputs ''input''")
  case (Inl e)
  then have "agent_run E agent vq cc inputs w = (Inl e, init w)"
    by (simp add: agent_run_def agent_executor_invoke_def bind_def lift_def)
  then show ?thesis using assms by simp
next
  case (Inr input)
  let ?loop = "agent_loop E agent (notebook_tools vq cc) input max_iterations [] (init w)"
  show ?thesis
  proof (cases "fst ?loop")
    case (Inl e)
    then have "agent_run E agent vq cc inputs w = (Inl e, snd ?loop)"
      using Inr
      by (cases ?loop) (simp add: agent_run_def agent_executor_invoke_def bind_def lift_def)
    then show ?thesis using assms by simp
  next
    case ans: (Inr answer)
    then have run: "agent_run E agent vq cc inputs w =
        (Inr (PDict [(''input'', input), (''output'', answer)]), snd ?loop)"
      using Inr
      by (cases ?loop)
         (simp add: agent_run_def agent_executor_invoke_def bind_def lift_def return_def)
    from agent_loop_reason[OF ans]
    obtain evs where "trace (snd ?loop) = trace (init w) @ evs"
      "(evs \<noteq> [] \<and> final_answer (last evs) = Some answer) \<or>
       length (filter is_plan evs) = max_iterations"
      by blast
    then have "(trace (snd ?loop) \<noteq> [] \<and> final_answer (last (trace (snd ?loop))) = Some answer) \<or>
       length (filter is_plan (trace (snd ?loop))) = max_iterations"
      by (simp add: init_def)
    then show ?thesis using run assms by auto
  qed
qed

lemma agent_run_shape:
  "\<exists>r. capped max_iterations (trace (snd (agent_run E agent vq cc inputs w))) r \<and>
     (\<forall>ev \<in> set (trace (snd (agent_run E agent vq cc inputs w))).
        is_plan ev \<or> tool_call vq cc ev) \<and>
     (\<forall>answer. r = Inr answer \<longrightarrow>
        (\<exists>input. fst (agent_run E agent vq cc inputs w) =
           Inr (PDict [(''input'', input), (''output'', answer)])))"
proof (cases "subscript inputs ''input''")
  case (Inl e)
  then have "agent_run E agent vq cc inputs w = (Inl e, init w)"
    by (simp add: agent_run_def agent_executor_invoke_def bind_def lift_def)
  then show ?thesis
    by (intro exI[of _ "Inl e"]) (simp add: capped_def init_def)
next
  case (Inr input)
  let ?loop = "agent_loop E agent (notebook_tools vq cc) input max_iterations [] (init w)"
  from agent_loop_capped[of E agent vq cc input max_iterations "[]" "init w"]
  obtain evs where e: "trace (snd ?loop) = trace (init w) @ evs"
    "capped max_iterations evs (fst ?loop)"
    "\<forall>ev \<in> set evs. is_plan ev \<or> tool_call vq cc ev"
    by blast
  then have c: "capped max_iterations (trace (snd ?loop)) (fst ?loop)"
    "\<forall>ev \<in> set (trace (snd ?loop)). is_plan ev \<or> tool_call vq cc ev"
    by (simp_all add: init_def)
  show ?thesis
  proof (cases "fst ?loop")
    case (Inl e)
    then have "agent_run E agent vq cc inputs w = (Inl e, snd ?loop)"
      using Inr
      by (cases ?loop) (simp add: agent_run_def agent_executor_invoke_def bind_def lift_def)
    then show ?thesis using c Inl by (intro exI[of _ "Inl e"]) simp
  next
    case ans: (Inr answer)
    then have "agent_run E agent vq cc inputs w =
        (Inr (PDict [(''input'', input), (''output'', answer)]), snd ?loop)"
      using Inr
      by (cases ?loop)
         (simp add: agent_run_def agent_executor_invoke_def bind_def lift_def return_def)
    then show ?thesis using c ans by (intro exI[of _ "Inr answer"]) simp
  qed
qed

text \<open>
  Whatever the model chooses, the agent loop with the notebook's tools calls nothing but
  the agent and the two functions of the tools.
\<close>

lemma agent_run_dispatch:
  "\<forall>ev \<in> set (trace (snd (agent_run E agent vector_qa cypher_chain inputs w))).
     is_plan ev \<or> ev_callee ev = Meth vector_qa ''invoke'' \<or>
     ev_callee ev = Meth cypher_chain ''invoke''"
  using agent_run_shape[of E agent vector_qa cypher_chain inputs w]
  by (auto simp: tool_call_def)

section \<open>The vector index with the notebook's configuration\<close>

lemma map_of_set_property: "map_of (set_property k v kvs) = (map_of kvs)(k \<mapsto> v)"
  by (induction kvs) (auto simp: fun_eq_iff)

lemma notebook_vector_index_of:
  "vector_index_of (from_existing_graph_kwargs embedding) = Inr notebook_vector_index"
  by (simp add: vector_index_of_def from_existing_graph_kwargs_def notebook_vector_index_def)

lemma persisted:
  assumes "from_existing_graph embed_text (from_existing_graph_kwargs embedding) store =
             Inr (vi, store')"
      and "i < length store"
  shows "labels (store' ! i) = labels (store ! i)"
    and "''Task'' \<in> set (labels (store ! i)) \<Longrightarrow>
           map_of (properties (store' ! i)) =
             (map_of (properties (store ! i)))(''embedding'' \<mapsto>
                embed_text
                  [(''name'', map_of (properties (store ! i)) ''name''),
                   (''description'', map_of (properties (store ! i)) ''description''),
                   (''status'', map_of (properties (store ! i)) ''status'')])"
    and "''Task'' \<notin> set (labels (store ! i)) \<Longrightarrow> store' ! i = store ! i"
  using assms
  by (auto simp: from_existing_graph_def notebook_vector_index_of notebook_vector_index_def
      persist_embedding_def map_of_set_property text_properties_def)

lemma nearest:
  "\<exists>nvs. mset nvs = mset (indexed vi store) \<and>
     sorted (map (\<lambda>nv. distance (embed_query query) (snd nv)) nvs) \<and>
     similarity_search embed_query distance vi store query k = map fst (take k nvs)"
  unfolding similarity_search_def
  by (rule exI[of _ "sort_key (\<lambda>nv. distance (embed_query query) (snd nv)) (indexed vi store)"])
     simp

section \<open>The claims\<close>

subsection \<open>C1: the import of the dataset\<close>

lemma cell_import_counts:
  "length (filter is_fetch (new_events (cell_import E graph) s)) = 1 \<and>
   length (filter is_query (new_events (cell_import E graph) s)) \<le> 1"
  by (auto simp: cell_import_def bind_def call_def lift_def return_def new_events_def
      is_fetch_def is_query_def ev_name_def split: prod.splits sum.splits)

lemma cell_graph_no_load:
  "appends (\<lambda>ev. \<not> is_fetch ev \<and> \<not> is_query ev) (cell_graph E)"
  unfolding cell_graph_def
  by (intro appends_intros) (simp add: is_fetch_def is_query_def ev_name_def)

lemma cells_after_import_no_load:
  "appends (\<lambda>ev. \<not> is_fetch ev \<and> (is_query ev \<longrightarrow> ev_args ev = [PStr count_query]))
     (cells_after_import E graph)"
  unfolding cell_defs Let_def
  by (intro appends_intros) (simp_all add: is_fetch_def is_query_def ev_name_def)

lemma filter_is_fetch:
  "length (filter is_fetch evs) = length (filter (\<lambda>n. n = ''requests.get'') (map ev_name evs))"
  by (induction evs) (auto simp: is_fetch_def)

lemma notebook_fetches_once: "length (filter is_fetch (calls E w)) \<le> 1"
  using prefix_filter_length[OF calls_prefix_script, of "\<lambda>n. n = ''requests.get''" E w]
  by (simp add: filter_is_fetch script_def)

lemma sample_import:
  "cell_import sample_env sample_graph (init 0) =
     (Inr sample_import_query, snd (cell_import sample_env sample_graph (init 0)))"
  by (simp add: cell_import_def run_defs sample_import_query_def)

text \<open>
  Claim C1, as it is stated, says that the bulk data loader submits the fetched content
  verbatim. It does not: where the fetched document is a dictionary with the entry
  \<^verbatim>\<open>query\<close>, the loader submits the value of that entry, not the document.
\<close>

theorem import_submits_fetched_content_counterexample:
  "submitted (new_events (cell_import sample_env sample_graph) (init 0)) \<noteq>
   fetched (new_events (cell_import sample_env sample_graph) (init 0))"
  by (simp add: new_events_def submitted_def fetched_def is_query_def ev_name_def
      cell_import_def run_defs)

text \<open>
  Claim C1, amended. The bulk data loader performs exactly one network fetch, of the
  fixed address; when it completes, it has decoded the response as JSON and submitted the
  value of the entry \<^verbatim>\<open>query\<close> of the document, unchanged, as one query to the graph
  client, and these are all the calls it made; what it submitted is never the document
  itself. No other cell loads data: no other cell fetches anything (a run of the notebook
  fetches at most once), the first cell submits no query, and the only query the cells
  after the loader submit to the graph client is the fixed query that counts the open
  tasks.
\<close>

theorem import_submits_query_entry:
  "(\<forall>q s'. cell_import E graph s = (Inr q, s') \<longrightarrow>
      (\<exists>r j out.
         new_events (cell_import E graph) s =
           [Event (Fn ''requests.get'') [PStr import_url] [] (Inr r),
            Event (Meth r ''json'') [] [] (Inr j),
            Event (Meth graph ''query'') [q] [] (Inr out)] \<and>
         subscript j ''query'' = Inr q \<and> q \<noteq> j)) \<and>
   length (filter is_fetch (new_events (cell_import E graph) s)) = 1 \<and>
   length (filter is_query (new_events (cell_import E graph) s)) \<le> 1 \<and>
   (\<forall>ev \<in> set (new_events (cell_graph E) s). \<not> is_fetch ev \<and> \<not> is_query ev) \<and>
   (\<forall>ev \<in> set (new_events (cells_after_import E graph) s).
      \<not> is_fetch ev \<and> (is_query ev \<longrightarrow> ev_args ev = [PStr count_query])) \<and>
   length (filter is_fetch (calls E w)) \<le> 1"
proof (intro conjI)
  show "\<forall>q s'. cell_import E graph s = (Inr q, s') \<longrightarrow>
      (\<exists>r j out.
         new_events (cell_import E graph) s =
           [Event (Fn ''requests.get'') [PStr import_url] [] (Inr r),
            Event (Meth r ''json'') [] [] (Inr j),
            Event (Meth graph ''query'') [q] [] (Inr out)] \<and>
         subscript j ''query'' = Inr q \<and> q \<noteq> j)"
  proof (intro allI impI)
    fix q s'
    assume c: "cell_import E graph s = (Inr q, s')"
    from cell_import_complete[OF c] obtain r j out where
      "trace s' = trace s @
           [Event (Fn ''requests.get'') [PStr import_url] [] (Inr r),
            Event (Meth r ''json'') [] [] (Inr j),
            Event (Meth graph ''query'') [q] [] (Inr out)]"
      "subscript j ''query'' = Inr q" by blast
    then show "\<exists>r j out.
         new_events (cell_import E graph) s =
           [Event (Fn ''requests.get'') [PStr import_url] [] (Inr r),
            Event (Meth r ''json'') [] [] (Inr j),
            Event (Meth graph ''query'') [q] [] (Inr out)] \<and>
         subscript j ''query'' = Inr q \<and> q \<noteq> j"
      using c subscript_not_self[of j "''query''" q] by (auto simp: new_events_def)
  qed
  show "length (filter is_fetch (new_events (cell_import E graph) s)) = 1"
    using cell_import_counts by blast
  show "length (filter is_query (new_events (cell_import E graph) s)) \<le> 1"
    using cell_import_counts by blast
  show "\<forall>ev \<in> set (new_events (cell_graph E) s). \<not> is_fetch ev \<and> \<not> is_query ev"
    by (rule appends_new_events[OF cell_graph_no_load])
  show "\<forall>ev \<in> set (new_events (cells_after_import E graph) s).
      \<not> is_fetch ev \<and> (is_query ev \<longrightarrow> ev_args ev = [PStr count_query])"
    by (rule appends_new_events[OF cells_after_import_no_load])
  show "length (filter is_fetch (calls E w)) \<le> 1"
    by (rule notebook_fetches_once)
qed

theorem import_submits_query_entry_witness:
  "submitted (new_events (cell_import sample_env sample_graph) (init 0)) =
     [sample_import_query]"
proof -
  from import_submits_query_entry[of sample_env sample_graph "init 0"] sample_import
  obtain r j out where
    "new_events (cell_import sample_env sample_graph) (init 0) =
       [Event (Fn ''requests.get'') [PStr import_url] [] (Inr r),
        Event (Meth r ''json'') [] [] (Inr j),
        Event (Meth sample_graph ''query'') [sample_import_query] [] (Inr out)]"
    by blast
  then show ?thesis by (simp add: submitted_def is_query_def ev_name_def)
qed

subsection \<open>C2: the vector index\<close>

lemma notebook_vector_index_kwargs:
  "appends (\<lambda>ev. is_vector_index ev \<longrightarrow> ev_args ev = [] \<and>
       vector_index_of (ev_kwargs ev) = Inr notebook_vector_index) (notebook E)"
  unfolding cell_defs Let_def
  by (intro appends_intros)
     (simp_all add: is_vector_index_def ev_name_def notebook_vector_index_of)

lemma sample_from_existing_graph:
  "from_existing_graph sample_embed (from_existing_graph_kwargs PNone) sample_store =
     Inr (notebook_vector_index,
          map (persist_embedding sample_embed notebook_vector_index) sample_store)"
  by (simp add: from_existing_graph_def notebook_vector_index_of)

text \<open>
  Claim C2. In every run, the vector index adapter is constructed with the node label
  \<^verbatim>\<open>Task\<close>, the text properties \<^verbatim>\<open>name\<close>, \<^verbatim>\<open>description\<close> and \<^verbatim>\<open>status\<close> and the
  embedding property \<^verbatim>\<open>embedding\<close>; in a run that completes, the next call is
  \<^verbatim>\<open>similarity_search\<close> on the adapter that the construction returned. With these
  arguments the construction, as the specification describes it, gives every node
  labelled \<^verbatim>\<open>Task\<close> an \<^verbatim>\<open>embedding\<close> property computed from exactly its \<^verbatim>\<open>name\<close>,
  \<^verbatim>\<open>description\<close> and \<^verbatim>\<open>status\<close>, changes no other property and no other node, and the
  lookup returns the \<open>k\<close> nodes whose stored embeddings are nearest to the query.
\<close>

theorem vector_index_embeds_task_nodes:
  "(\<forall>ev \<in> set (calls E w).
      is_vector_index ev \<longrightarrow>
        ev_args ev = [] \<and> vector_index_of (ev_kwargs ev) = Inr notebook_vector_index) \<and>
   (outcome E w = Inr () \<longrightarrow>
      (\<exists>embedding vector_index response.
         calls E w ! 5 =
           Event (Fn ''Neo4jVector.from_existing_graph'') []
             (from_existing_graph_kwargs embedding) (Inr vector_index) \<and>
         calls E w ! 6 =
           Event (Meth vector_index ''similarity_search'')
             [PStr ''How will RecommendationService be updated?''] [] (Inr response))) \<and>
   (\<forall>vi store'.
      from_existing_graph embed_text (from_existing_graph_kwargs embedding) store =
        Inr (vi, store') \<longrightarrow>
      vi = notebook_vector_index \<and>
      length store' = length store \<and>
      (\<forall>i < length store.
         labels (store' ! i) = labels (store ! i) \<and>
         (''Task'' \<in> set (labels (store ! i)) \<longrightarrow>
            map_of (properties (store' ! i)) =
              (map_of (properties (store ! i)))(''embedding'' \<mapsto>
                 embed_text
                   [(''name'', map_of (properties (store ! i)) ''name''),
                    (''description'', map_of (properties (store ! i)) ''description''),
                    (''status'', map_of (properties (store ! i)) ''status'')])) \<and>
         (''Task'' \<notin> set (labels (store ! i)) \<longrightarrow> store' ! i = store ! i))) \<and>
   (\<exists>nvs. mset nvs = mset (indexed notebook_vector_index store) \<and>
      sorted (map (\<lambda>nv. distance (embed_query query) (snd nv)) nvs) \<and>
      similarity_search embed_query distance notebook_vector_index store query k =
        map fst (take k nvs))"
proof (intro conjI)
  show "\<forall>ev \<in> set (calls E w). is_vector_index ev \<longrightarrow>
        ev_args ev = [] \<and> vector_index_of (ev_kwargs ev) = Inr notebook_vector_index"
    by (rule appends_calls[OF notebook_vector_index_kwargs])
  show "outcome E w = Inr () \<longrightarrow>
      (\<exists>embedding vector_index response.
         calls E w ! 5 =
           Event (Fn ''Neo4jVector.from_existing_graph'') []
             (from_existing_graph_kwargs embedding) (Inr vector_index) \<and>
         calls E w ! 6 =
           Event (Meth vector_index ''similarity_search'')
             [PStr ''How will RecommendationService be updated?''] [] (Inr response))"
  proof
    assume c: "outcome E w = Inr ()"
    from calls_complete[OF c] obtain vs q where t: "calls E w = complete_trace vs q" by blast
    show "\<exists>embedding vector_index response.
         calls E w ! 5 =
           Event (Fn ''Neo4jVector.from_existing_graph'') []
             (from_existing_graph_kwargs embedding) (Inr vector_index) \<and>
         calls E w ! 6 =
           Event (Meth vector_index ''similarity_search'')
             [PStr ''How will RecommendationService be updated?''] [] (Inr response)"
      unfolding t by (rule exI[of _ "vs ! 4"]) (simp add: complete_trace_def Let_def)
  qed
  show "\<forall>vi store'.
      from_existing_graph embed_text (from_existing_graph_kwargs embedding) store =
        Inr (vi, store') \<longrightarrow>
      vi = notebook_vector_index \<and>
      length store' = length store \<and>
      (\<forall>i < length store.
         labels (store' ! i) = labels (store ! i) \<and>
         (''Task'' \<in> set (labels (store ! i)) \<longrightarrow>
            map_of (properties (store' ! i)) =
              (map_of (properties (store ! i)))(''embedding'' \<mapsto>
                 embed_text
                   [(''name'', map_of (properties (store ! i)) ''name''),
                    (''description'', map_of (properties (store ! i)) ''description''),
                    (''status'', map_of (properties (store ! i)) ''status'')])) \<and>
         (''Task'' \<notin> set (labels (store ! i)) \<longrightarrow> store' ! i = store ! i))"
  proof (intro allI impI)
    fix vi store'
    assume f: "from_existing_graph embed_text (from_existing_graph_kwargs embedding) store =
        Inr (vi, store')"
    have "vi = notebook_vector_index" "length store' = length store"
      using f by (auto simp: from_existing_graph_def notebook_vector_index_of)
    then show "vi = notebook_vector_index \<and>
      length store' = length store \<and>
      (\<forall>i < length store.
         labels (store' ! i) = labels (store ! i) \<and>
         (''Task'' \<in> set (labels (store ! i)) \<longrightarrow>
            map_of (properties (store' ! i)) =
              (map_of (properties (store ! i)))(''embedding'' \<mapsto>
                 embed_text
                   [(''name'', map_of (properties (store ! i)) ''name''),
                    (''description'', map_of (properties (store ! i)) ''description''),
                    (''status'', map_of (properties (store ! i)) ''status'')])) \<and>
         (''Task'' \<notin> set (labels (store ! i)) \<longrightarrow> store' ! i = store ! i))"
      using persisted[OF f] by blast
  qed
  show "\<exists>nvs. mset nvs = mset (indexed notebook_vector_index store) \<and>
      sorted (map (\<lambda>nv. distance (embed_query query) (snd nv)) nvs) \<and>
      similarity_search embed_query distance notebook_vector_index store query k =
        map fst (take k nvs)"
    by (rule nearest)
qed

theorem vector_index_embeds_task_nodes_witness:
  "map_of (properties (map (persist_embedding sample_embed notebook_vector_index) sample_store ! 0))
     ''embedding'' =
   Some (PList [PStr ''Update'', PStr ''Update InventoryService'', PStr ''in progress'']) \<and>
   map (persist_embedding sample_embed notebook_vector_index) sample_store ! 1 =
     sample_store ! 1"
proof -
  let ?store' = "map (persist_embedding sample_embed notebook_vector_index) sample_store"
  have l: "(0::nat) < length sample_store" "(1::nat) < length sample_store"
    by (simp_all add: sample_store_def)
  have t: "''Task'' \<in> set (labels (sample_store ! 0))"
    "''Task'' \<notin> set (labels (sample_store ! 1))"
    by (simp_all add: sample_store_def)
  note th = vector_index_embeds_task_nodes[where E = sample_env and w = 0
      and embed_text = sample_embed and embedding = PNone and store = sample_store
      and distance = "\<lambda>a b. 0::nat" and embed_query = "\<lambda>q. PNone" and query = "''q''"
      and k = 4]
  from th[THEN conjunct2, THEN conjunct2, THEN conjunct1] sample_from_existing_graph
  have all: "\<forall>i < length sample_store.
         labels (?store' ! i) = labels (sample_store ! i) \<and>
         (''Task'' \<in> set (labels (sample_store ! i)) \<longrightarrow>
            map_of (properties (?store' ! i)) =
              (map_of (properties (sample_store ! i)))(''embedding'' \<mapsto>
                 sample_embed
                   [(''name'', map_of (properties (sample_store ! i)) ''name''),
                    (''description'', map_of (properties (sample_store ! i)) ''description''),
                    (''status'', map_of (properties (sample_store ! i)) ''status'')])) \<and>
         (''Task'' \<notin> set (labels (sample_store ! i)) \<longrightarrow> ?store' ! i = sample_store ! i)"
    by blast
  from all l(1) t(1) have "map_of (properties (?store' ! 0)) ''embedding'' =
      Some (sample_embed
                   [(''name'', map_of (properties (sample_store ! 0)) ''name''),
                    (''description'', map_of (properties (sample_store ! 0)) ''description''),
                    (''status'', map_of (properties (sample_store ! 0)) ''status'')])"
    by simp
  moreover from all l(2) t(2) have "?store' ! 1 = sample_store ! 1" by blast
  ultimately show ?thesis by (simp add: sample_store_def)
qed

subsection \<open>C3: the query-translation wrapper\<close>

lemma chain_sample:
  "fst (cypher_chain_invoke chain_env sample_cypher_llm sample_qa_llm sample_graph
          sample_question (init 0)) =
     Inr (PDict [(''query'', sample_question), (''result'', PStr ''There are 5 open tickets.'')])"
  by (simp add: cypher_chain_invoke_def run_defs sample_cypher_llm_def sample_qa_llm_def)

text \<open>
  Claim C3. For every question, the query-translation wrapper makes its calls in this
  order and stops at the first that fails: it reads the schema of the graph, sends the
  question with the schema to the language model, executes the query the model returned
  against the graph database, and sends the raw result to the language model. When all
  four have succeeded, what the second call of the model returned is the result it
  returns.
\<close>

theorem cypher_chain_steps:
  "follows ev_name [''.get_schema'', ''.invoke'', ''.query'', ''.invoke'']
      (cypher_chain_invoke E cypher_llm qa_llm graph question) \<and>
   (\<forall>s v s'. cypher_chain_invoke E cypher_llm qa_llm graph question s = (Inr v, s') \<longrightarrow>
      (\<exists>schema generated_query raw_result answer.
         trace s' = trace s @
           [Event (Meth graph ''get_schema'') [] [] (Inr schema),
            Event (Meth cypher_llm ''invoke'')
              [PDict [(''question'', question), (''schema'', schema)]] []
              (Inr generated_query),
            Event (Meth graph ''query'') [generated_query] [] (Inr raw_result),
            Event (Meth qa_llm ''invoke'') [PDict [(''context'', raw_result)]] []
              (Inr answer)] \<and>
         v = PDict [(''query'', question), (''result'', answer)]))"
proof
  show "follows ev_name [''.get_schema'', ''.invoke'', ''.query'', ''.invoke'']
      (cypher_chain_invoke E cypher_llm qa_llm graph question)"
    unfolding cypher_chain_invoke_def
    by (intro follows_call_bind follows_return) (simp_all add: ev_name_def)
next
  show "\<forall>s v s'. cypher_chain_invoke E cypher_llm qa_llm graph question s = (Inr v, s') \<longrightarrow>
      (\<exists>schema generated_query raw_result answer.
         trace s' = trace s @
           [Event (Meth graph ''get_schema'') [] [] (Inr schema),
            Event (Meth cypher_llm ''invoke'')
              [PDict [(''question'', question), (''schema'', schema)]] []
              (Inr generated_query),
            Event (Meth graph ''query'') [generated_query] [] (Inr raw_result),
            Event (Meth qa_llm ''invoke'') [PDict [(''context'', raw_result)]] []
              (Inr answer)] \<and>
         v = PDict [(''query'', question), (''result'', answer)])"
  proof (intro allI impI)
    fix s v s'
    assume "cypher_chain_invoke E cypher_llm qa_llm graph question s = (Inr v, s')"
    then show "\<exists>schema generated_query raw_result answer.
         trace s' = trace s @
           [Event (Meth graph ''get_schema'') [] [] (Inr schema),
            Event (Meth cypher_llm ''invoke'')
              [PDict [(''question'', question), (''schema'', schema)]] []
              (Inr generated_query),
            Event (Meth graph ''query'') [generated_query] [] (Inr raw_result),
            Event (Meth qa_llm ''invoke'') [PDict [(''context'', raw_result)]] []
              (Inr answer)] \<and>
         v = PDict [(''query'', question), (''result'', answer)]"
      unfolding cypher_chain_invoke_def
      by (elim bind_InrE call_InrE return_InrE) auto
  qed
qed

theorem cypher_chain_steps_witness:
  "map ev_name (trace (snd (cypher_chain_invoke chain_env sample_cypher_llm sample_qa_llm
      sample_graph sample_question (init 0)))) =
     [''.get_schema'', ''.invoke'', ''.query'', ''.invoke'']"
proof -
  let ?run = "cypher_chain_invoke chain_env sample_cypher_llm sample_qa_llm
      sample_graph sample_question (init 0)"
  obtain v s' where r: "?run = (Inr v, s')"
    using chain_sample by (cases ?run) auto
  from cypher_chain_steps[of chain_env sample_cypher_llm sample_qa_llm sample_graph
      sample_question, THEN conjunct2, rule_format, OF r]
  obtain schema generated_query raw_result answer where
    "trace s' = trace (init (0::nat)) @
       [Event (Meth sample_graph ''get_schema'') [] [] (Inr schema),
        Event (Meth sample_cypher_llm ''invoke'')
          [PDict [(''question'', sample_question), (''schema'', schema)]] []
          (Inr generated_query),
        Event (Meth sample_graph ''query'') [generated_query] [] (Inr raw_result),
        Event (Meth sample_qa_llm ''invoke'') [PDict [(''context'', raw_result)]] []
          (Inr answer)]"
    by blast
  then show ?thesis using r by (simp add: init_def ev_name_def)
qed

subsection \<open>C4: the agent loop\<close>

lemma react_trace:
  "map final_answer
     (trace (snd (agent_run react_env sample_agent sample_vector_qa sample_cypher_chain
        sample_inputs 0))) =
     [None, None, Some sample_answer]"
  by (simp add: agent_run_def agent_executor_invoke_def max_iterations_def numeral_2_eq_2
        execute_def notebook_tools_def tasks_tool_kwargs_def graph_tool_kwargs_def run_defs
        sample_agent_def sample_inputs_def)

text \<open>
  Claim C4. The agent loop terminates for every input and whatever the model answers:
  the loop is defined by recursion on the iterations that remain, so that, every
  external call returning, \<open>agent_run\<close> has a value. With \<^verbatim>\<open>max_iterations=2\<close> it asks the
  model at most twice and makes at most two other calls, one for each tool it executes;
  a call in which the model gives its final answer is the last call the loop makes, the
  loop returning that answer; and when the loop returns, either its last call is one in
  which the model gave the answer returned, or the model has been asked twice.
\<close>

theorem agent_loop_stops_within_cap:
  "max_iterations = 2 \<and>
   length (filter is_plan (trace (snd (agent_run E agent vector_qa cypher_chain inputs w))))
     \<le> max_iterations \<and>
   length (filter (\<lambda>ev. \<not> is_plan ev)
             (trace (snd (agent_run E agent vector_qa cypher_chain inputs w))))
     \<le> max_iterations \<and>
   (\<forall>i < length (trace (snd (agent_run E agent vector_qa cypher_chain inputs w))).
      \<forall>answer.
        final_answer (trace (snd (agent_run E agent vector_qa cypher_chain inputs w)) ! i) =
          Some answer \<longrightarrow>
        Suc i = length (trace (snd (agent_run E agent vector_qa cypher_chain inputs w))) \<and>
        (\<exists>input. fst (agent_run E agent vector_qa cypher_chain inputs w) =
                   Inr (PDict [(''input'', input), (''output'', answer)]))) \<and>
   (\<forall>v. fst (agent_run E agent vector_qa cypher_chain inputs w) = Inr v \<longrightarrow>
      (\<exists>input answer.
         v = PDict [(''input'', input), (''output'', answer)] \<and>
         ((trace (snd (agent_run E agent vector_qa cypher_chain inputs w)) \<noteq> [] \<and>
           final_answer (last (trace (snd (agent_run E agent vector_qa cypher_chain inputs w))))
             = Some answer) \<or>
          length (filter is_plan
                    (trace (snd (agent_run E agent vector_qa cypher_chain inputs w))))
            = max_iterations)))"
proof -
  let ?run = "agent_run E agent vector_qa cypher_chain inputs w"
  from agent_run_shape[of E agent vector_qa cypher_chain inputs w]
  obtain r where c: "capped max_iterations (trace (snd ?run)) r"
    and a: "\<forall>answer. r = Inr answer \<longrightarrow>
        (\<exists>input. fst ?run = Inr (PDict [(''input'', input), (''output'', answer)]))"
    by blast
  have counts: "length (filter is_plan (trace (snd ?run))) \<le> max_iterations"
    "length (filter (\<lambda>ev. \<not> is_plan ev) (trace (snd ?run))) \<le> max_iterations"
    using c by (simp_all add: capped_def)
  have final: "\<forall>i < length (trace (snd ?run)). \<forall>answer.
      final_answer (trace (snd ?run) ! i) = Some answer \<longrightarrow>
      Suc i = length (trace (snd ?run)) \<and>
      (\<exists>input. fst ?run = Inr (PDict [(''input'', input), (''output'', answer)]))"
  proof (intro allI impI)
    fix i answer
    assume i: "i < length (trace (snd ?run))"
      and f: "final_answer (trace (snd ?run) ! i) = Some answer"
    have "stops_at_final (trace (snd ?run)) r" using c by (simp add: capped_def)
    from stops_at_final_nth[OF this i f] a
    show "Suc i = length (trace (snd ?run)) \<and>
      (\<exists>input. fst ?run = Inr (PDict [(''input'', input), (''output'', answer)]))"
      by simp
  qed
  have reason: "\<forall>v. fst ?run = Inr v \<longrightarrow>
      (\<exists>input answer.
         v = PDict [(''input'', input), (''output'', answer)] \<and>
         ((trace (snd ?run) \<noteq> [] \<and> final_answer (last (trace (snd ?run))) = Some answer) \<or>
          length (filter is_plan (trace (snd ?run))) = max_iterations))"
  proof (intro allI impI)
    fix v
    assume "fst ?run = Inr v"
    then show "\<exists>input answer.
         v = PDict [(''input'', input), (''output'', answer)] \<and>
         ((trace (snd ?run) \<noteq> [] \<and> final_answer (last (trace (snd ?run))) = Some answer) \<or>
          length (filter is_plan (trace (snd ?run))) = max_iterations)"
      by (rule agent_run_reason)
  qed
  show ?thesis
  proof (intro conjI)
    show "max_iterations = 2" by (simp add: max_iterations_def)
  qed (fact counts final reason)+
qed

theorem agent_loop_stops_within_cap_witness:
  "length (trace (snd (agent_run react_env sample_agent sample_vector_qa sample_cypher_chain
      sample_inputs 0))) = 3 \<and>
   (\<exists>input. fst (agent_run react_env sample_agent sample_vector_qa sample_cypher_chain
      sample_inputs 0) =
        Inr (PDict [(''input'', input), (''output'', sample_answer)]))"
proof -
  let ?run = "agent_run react_env sample_agent sample_vector_qa sample_cypher_chain
      sample_inputs 0"
  have len: "length (trace (snd ?run)) = 3"
    using arg_cong[OF react_trace, of length] by simp
  have f: "final_answer (trace (snd ?run) ! 2) = Some sample_answer"
    using arg_cong[OF react_trace, of "\<lambda>xs. xs ! 2"] len by (simp add: nth_map)
  from agent_loop_stops_within_cap[of react_env sample_agent sample_vector_qa
      sample_cypher_chain sample_inputs 0]
  have all: "\<forall>i < length (trace (snd ?run)). \<forall>answer.
      final_answer (trace (snd ?run) ! i) = Some answer \<longrightarrow>
      Suc i = length (trace (snd ?run)) \<and>
      (\<exists>input. fst ?run = Inr (PDict [(''input'', input), (''output'', answer)]))"
    by blast
  have "2 < length (trace (snd ?run))" using len by simp
  from all[rule_format, OF this f] show ?thesis using len by simp
qed

subsection \<open>C5: failures\<close>

lemma offline_run:
  "map ev_outcome (calls offline_env 0) =
     [Inr (PObj ''Neo4jGraph'' []), Inl (LibraryError ''ConnectionError'')]"
  by (simp add: calls_def cell_defs run_defs)

text \<open>
  Claim C5. A failure raised by an external call propagates unchanged: in every run of
  the notebook, in every environment, a call that fails is the last call made (nothing is
  retried and nothing runs after it) and the error it raised is the outcome of the run.
\<close>

theorem failure_propagates_unchanged:
  "\<forall>i < length (calls E w). \<forall>e.
     ev_outcome (calls E w ! i) = Inl e \<longrightarrow>
       Suc i = length (calls E w) \<and> outcome E w = Inl e"
proof -
  from notebook_propagates[of E, unfolded propagates_def, rule_format, of "init w"]
  obtain evs where "trace (snd (notebook E (init w))) = trace (init w) @ evs"
    "faithful evs (fst (notebook E (init w)))" by auto
  then have "faithful (calls E w) (outcome E w)"
    by (simp add: init_def calls_def outcome_def)
  then show ?thesis using faithful_nth by blast
qed

theorem failure_propagates_unchanged_witness:
  "outcome offline_env 0 = Inl (LibraryError ''ConnectionError'') \<and>
   length (calls offline_env 0) = 2"
proof -
  have len: "length (calls offline_env 0) = 2"
    using arg_cong[OF offline_run, of length] by simp
  have "ev_outcome (calls offline_env 0 ! 1) = Inl (LibraryError ''ConnectionError'')"
    using arg_cong[OF offline_run, of "\<lambda>xs. xs ! 1"] len by (simp add: nth_map)
  then show ?thesis
    using failure_propagates_unchanged[of offline_env 0, rule_format,
        of 1 "LibraryError ''ConnectionError''"] len
    by simp
qed

subsection \<open>C6: the clients of the language model\<close>

lemma notebook_llm_parameters: "appends llm_parameters (notebook E)"
  unfolding cell_defs Let_def
  by (intro appends_intros) (simp_all add: llm_parameters_def llm_client_def ev_name_def)

lemma filter_llm_client:
  "map ev_name (filter llm_client evs) = filter (\<lambda>n. n = ''ChatGroq'') (map ev_name evs)"
  by (induction evs) (auto simp: llm_client_def)

text \<open>
  Claim C6, as it is stated, says that every client of the language model that the
  notebook constructs is given a model name and a temperature. In a run that completes,
  the first client constructed, the one of the retrieval wrapper, is given no temperature.
\<close>

theorem llm_clients_given_both_counterexample:
  "\<not> list_all given_model_and_temperature (filter llm_client (calls sample_env 0))"
proof -
  from calls_complete[OF sample_completes] obtain vs q where
    t: "calls sample_env 0 = complete_trace vs q" by blast
  have "complete_trace vs q ! 7 \<in> set (complete_trace vs q)"
    by (rule nth_mem) (simp add: complete_trace_length)
  moreover have "llm_client (complete_trace vs q ! 7)"
    by (simp add: complete_trace_def Let_def llm_client_def ev_name_def)
  moreover have "\<not> given_model_and_temperature (complete_trace vs q ! 7)"
    by (simp add: complete_trace_def Let_def given_model_and_temperature_def)
  ultimately show ?thesis unfolding t by (auto simp: list_all_iff)
qed

text \<open>
  Claim C6, amended. Every client of the language model that the notebook constructs is
  given a model name, a temperature or both, and nothing else: the model name only, or
  temperature 0 and the model name, or temperature 0 only. A run that completes
  constructs four clients: the one passed to the retrieval wrapper as \<^verbatim>\<open>llm\<close> has the
  model name only, the one passed to the query-translation wrapper as \<^verbatim>\<open>cypher_llm\<close> has
  both, the one passed to it as \<^verbatim>\<open>qa_llm\<close> has the temperature only, and the one passed
  to \<^verbatim>\<open>create_react_agent\<close> as \<^verbatim>\<open>llm\<close> has both. So the clients that generate queries
  and select the agent's actions are constructed with the same parameters, and the two
  that phrase answers differ from them and from each other in the parameters given.
\<close>

theorem llm_clients_parameters:
  "(\<forall>ev \<in> set (calls E w).
      llm_client ev \<longrightarrow>
        ev_args ev = [] \<and>
        (ev_kwargs ev = [(''model_name'', PStr llama_3_1)] \<or>
         ev_kwargs ev = [(''temperature'', PInt 0), (''model_name'', PStr llama_3_1)] \<or>
         ev_kwargs ev = [(''temperature'', PInt 0)])) \<and>
   (outcome E w = Inr () \<longrightarrow>
      length (filter llm_client (calls E w)) = 4 \<and>
      (\<exists>llm_qa retriever vector_qa cypher_llm qa_llm graph cypher_chain llm tools prompt agent.
         calls E w ! 7 =
           Event (Fn ''ChatGroq'') [] [(''model_name'', PStr llama_3_1)] (Inr llm_qa) \<and>
         calls E w ! 9 =
           Event (Fn ''RetrievalQA.from_chain_type'') []
             [(''llm'', llm_qa), (''chain_type'', PStr ''stuff''), (''retriever'', retriever)]
             (Inr vector_qa) \<and>
         calls E w ! 14 =
           Event (Fn ''ChatGroq'') []
             [(''temperature'', PInt 0), (''model_name'', PStr llama_3_1)] (Inr cypher_llm) \<and>
         calls E w ! 15 =
           Event (Fn ''ChatGroq'') [] [(''temperature'', PInt 0)] (Inr qa_llm) \<and>
         calls E w ! 16 =
           Event (Fn ''GraphCypherQAChain.from_llm'') []
             [(''cypher_llm'', cypher_llm), (''qa_llm'', qa_llm), (''graph'', graph),
              (''verbose'', PBool True)]
             (Inr cypher_chain) \<and>
         calls E w ! 24 =
           Event (Fn ''ChatGroq'') []
             [(''temperature'', PInt 0), (''model_name'', PStr llama_3_1)] (Inr llm) \<and>
         calls E w ! 25 =
           Event (Fn ''create_react_agent'') []
             [(''llm'', llm), (''tools'', tools), (''prompt'', prompt),
              (''stop_sequence'', PBool True)]
             (Inr agent)))"
proof
  show "\<forall>ev \<in> set (calls E w).
      llm_client ev \<longrightarrow>
        ev_args ev = [] \<and>
        (ev_kwargs ev = [(''model_name'', PStr llama_3_1)] \<or>
         ev_kwargs ev = [(''temperature'', PInt 0), (''model_name'', PStr llama_3_1)] \<or>
         ev_kwargs ev = [(''temperature'', PInt 0)])"
    using appends_calls[OF notebook_llm_parameters, of E w] by (simp add: llm_parameters_def)
next
  show "outcome E w = Inr () \<longrightarrow>
      length (filter llm_client (calls E w)) = 4 \<and>
      (\<exists>llm_qa retriever vector_qa cypher_llm qa_llm graph cypher_chain llm tools prompt agent.
         calls E w ! 7 =
           Event (Fn ''ChatGroq'') [] [(''model_name'', PStr llama_3_1)] (Inr llm_qa) \<and>
         calls E w ! 9 =
           Event (Fn ''RetrievalQA.from_chain_type'') []
             [(''llm'', llm_qa), (''chain_type'', PStr ''stuff''), (''retriever'', retriever)]
             (Inr vector_qa) \<and>
         calls E w ! 14 =
           Event (Fn ''ChatGroq'') []
             [(''temperature'', PInt 0), (''model_name'', PStr llama_3_1)] (Inr cypher_llm) \<and>
         calls E w ! 15 =
           Event (Fn ''ChatGroq'') [] [(''temperature'', PInt 0)] (Inr qa_llm) \<and>
         calls E w ! 16 =
           Event (Fn ''GraphCypherQAChain.from_llm'') []
             [(''cypher_llm'', cypher_llm), (''qa_llm'', qa_llm), (''graph'', graph),
              (''verbose'', PBool True)]
             (Inr cypher_chain) \<and>
         calls E w ! 24 =
           Event (Fn ''ChatGroq'') []
             [(''temperature'', PInt 0), (''model_name'', PStr llama_3_1)] (Inr llm) \<and>
         calls E w ! 25 =
           Event (Fn ''create_react_agent'') []
             [(''llm'', llm), (''tools'', tools), (''prompt'', prompt),
              (''stop_sequence'', PBool True)]
             (Inr agent))"
  proof
    assume c: "outcome E w = Inr ()"
    from calls_complete[OF c] obtain vs q where t: "calls E w = complete_trace vs q" by blast
    have n: "length (filter llm_client (calls E w)) = 4"
      using arg_cong[OF filter_llm_client[of "calls E w"], of length] calls_script[OF c]
      by (simp add: script_def)
    show "length (filter llm_client (calls E w)) = 4 \<and>
      (\<exists>llm_qa retriever vector_qa cypher_llm qa_llm graph cypher_chain llm tools prompt agent.
         calls E w ! 7 =
           Event (Fn ''ChatGroq'') [] [(''model_name'', PStr llama_3_1)] (Inr llm_qa) \<and>
         calls E w ! 9 =
           Event (Fn ''RetrievalQA.from_chain_type'') []
             [(''llm'', llm_qa), (''chain_type'', PStr ''stuff''), (''retriever'', retriever)]
             (Inr vector_qa) \<and>
         calls E w ! 14 =
           Event (Fn ''ChatGroq'') []
             [(''temperature'', PInt 0), (''model_name'', PStr llama_3_1)] (Inr cypher_llm) \<and>
         calls E w ! 15 =
           Event (Fn ''ChatGroq'') [] [(''temperature'', PInt 0)] (Inr qa_llm) \<and>
         calls E w ! 16 =
           Event (Fn ''GraphCypherQAChain.from_llm'') []
             [(''cypher_llm'', cypher_llm), (''qa_llm'', qa_llm), (''graph'', graph),
              (''verbose'', PBool True)]
             (Inr cypher_chain) \<and>
         calls E w ! 24 =
           Event (Fn ''ChatGroq'') []
             [(''temperature'', PInt 0), (''model_name'', PStr llama_3_1)] (Inr llm) \<and>
         calls E w ! 25 =
           Event (Fn ''create_react_agent'') []
             [(''llm'', llm), (''tools'', tools), (''prompt'', prompt),
              (''stop_sequence'', PBool True)]
             (Inr agent))"
      using n unfolding t by (simp add: complete_trace_def Let_def)
  qed
qed

theorem llm_clients_parameters_witness:
  "map (\<lambda>i. ev_kwargs (calls sample_env 0 ! i)) [7, 14, 15, 24] =
     [[(''model_name'', PStr llama_3_1)],
      [(''temperature'', PInt 0), (''model_name'', PStr llama_3_1)],
      [(''temperature'', PInt 0)],
      [(''temperature'', PInt 0), (''model_name'', PStr llama_3_1)]]"
proof -
  from llm_clients_parameters[of sample_env 0] sample_completes
  obtain llm_qa cypher_llm qa_llm llm where
    "calls sample_env 0 ! 7 =
       Event (Fn ''ChatGroq'') [] [(''model_name'', PStr llama_3_1)] (Inr llm_qa)"
    "calls sample_env 0 ! 14 =
       Event (Fn ''ChatGroq'') []
         [(''temperature'', PInt 0), (''model_name'', PStr llama_3_1)] (Inr cypher_llm)"
    "calls sample_env 0 ! 15 =
       Event (Fn ''ChatGroq'') [] [(''temperature'', PInt 0)] (Inr qa_llm)"
    "calls sample_env 0 ! 24 =
       Event (Fn ''ChatGroq'') []
         [(''temperature'', PInt 0), (''model_name'', PStr llama_3_1)] (Inr llm)"
    by blast
  then show ?thesis by simp
qed

subsection \<open>C9: one graph store\<close>

lemma notebook_same_store: "appends same_store (notebook E)"
  unfolding cell_defs Let_def
  by (intro appends_intros)
     (simp_all add: same_store_def connects_def connection_def ev_name_def
        from_existing_graph_kwargs_def tasks_tool_kwargs_def graph_tool_kwargs_def)

lemma filter_connects:
  "map ev_name (filter connects evs) =
     filter (\<lambda>n. n = ''Neo4jGraph'' \<or> n = ''Neo4jVector.from_existing_graph'') (map ev_name evs)"
  by (induction evs) (auto simp: connects_def)

text \<open>
  Claim C9. The graph client and the vector index adapter are constructed with the same
  connection triple: in every run, a call that constructs one of them is given
  \<open>url\<close>, \<open>username\<close> and \<open>password\<close> as they were assigned in the first cell,
  and no other call is given any of the three. A run that completes constructs each of
  the two once; its queries and its schema refresh are methods of that graph client, its
  similarity search and its retriever are methods of that adapter, and the
  query-translation wrapper is given that graph client.
\<close>

theorem connection_triple_shared:
  "(\<forall>ev \<in> set (calls E w).
      connection ev =
        (if connects ev then (Some (PStr url), Some (PStr username), Some (PStr password))
         else (None, None, None))) \<and>
   (outcome E w = Inr () \<longrightarrow>
      map ev_name (filter connects (calls E w)) =
        [''Neo4jGraph'', ''Neo4jVector.from_existing_graph''] \<and>
      (\<exists>graph vector_index.
         map ev_outcome [calls E w ! 0, calls E w ! 5] = [Inr graph, Inr vector_index] \<and>
         map ev_callee [calls E w ! 3, calls E w ! 12, calls E w ! 13] =
           [Meth graph ''query'', Meth graph ''query'', Meth graph ''refresh_schema''] \<and>
         map ev_callee [calls E w ! 6, calls E w ! 8] =
           [Meth vector_index ''similarity_search'', Meth vector_index ''as_retriever''] \<and>
         map_of (ev_kwargs (calls E w ! 16)) ''graph'' = Some graph))"
proof
  show "\<forall>ev \<in> set (calls E w).
      connection ev =
        (if connects ev then (Some (PStr url), Some (PStr username), Some (PStr password))
         else (None, None, None))"
    using appends_calls[OF notebook_same_store, of E w] by (simp add: same_store_def)
next
  show "outcome E w = Inr () \<longrightarrow>
      map ev_name (filter connects (calls E w)) =
        [''Neo4jGraph'', ''Neo4jVector.from_existing_graph''] \<and>
      (\<exists>graph vector_index.
         map ev_outcome [calls E w ! 0, calls E w ! 5] = [Inr graph, Inr vector_index] \<and>
         map ev_callee [calls E w ! 3, calls E w ! 12, calls E w ! 13] =
           [Meth graph ''query'', Meth graph ''query'', Meth graph ''refresh_schema''] \<and>
         map ev_callee [calls E w ! 6, calls E w ! 8] =
           [Meth vector_index ''similarity_search'', Meth vector_index ''as_retriever''] \<and>
         map_of (ev_kwargs (calls E w ! 16)) ''graph'' = Some graph)"
  proof
    assume c: "outcome E w = Inr ()"
    then have "map ev_name (calls E w) = script" by (rule calls_script)
    then have names: "map ev_name (filter connects (calls E w)) =
        [''Neo4jGraph'', ''Neo4jVector.from_existing_graph'']"
      by (simp add: filter_connects script_def)
    from calls_complete[OF c] obtain vs q where t: "calls E w = complete_trace vs q" by blast
    have "\<exists>graph vector_index.
         map ev_outcome [calls E w ! 0, calls E w ! 5] = [Inr graph, Inr vector_index] \<and>
         map ev_callee [calls E w ! 3, calls E w ! 12, calls E w ! 13] =
           [Meth graph ''query'', Meth graph ''query'', Meth graph ''refresh_schema''] \<and>
         map ev_callee [calls E w ! 6, calls E w ! 8] =
           [Meth vector_index ''similarity_search'', Meth vector_index ''as_retriever''] \<and>
         map_of (ev_kwargs (calls E w ! 16)) ''graph'' = Some graph"
      unfolding t by (simp add: complete_trace_def Let_def)
    then show "map ev_name (filter connects (calls E w)) =
        [''Neo4jGraph'', ''Neo4jVector.from_existing_graph''] \<and>
      (\<exists>graph vector_index.
         map ev_outcome [calls E w ! 0, calls E w ! 5] = [Inr graph, Inr vector_index] \<and>
         map ev_callee [calls E w ! 3, calls E w ! 12, calls E w ! 13] =
           [Meth graph ''query'', Meth graph ''query'', Meth graph ''refresh_schema''] \<and>
         map ev_callee [calls E w ! 6, calls E w ! 8] =
           [Meth vector_index ''similarity_search'', Meth vector_index ''as_retriever''] \<and>
         map_of (ev_kwargs (calls E w ! 16)) ''graph'' = Some graph)"
      using names by blast
  qed
qed

theorem connection_triple_shared_witness:
  "map connection (filter connects (calls sample_env 0)) =
     [(Some (PStr url), Some (PStr username), Some (PStr password)),
      (Some (PStr url), Some (PStr username), Some (PStr password))]"
proof -
  let ?evs = "filter connects (calls sample_env 0)"
  let ?t = "(Some (PStr url), Some (PStr username), Some (PStr password))"
  from connection_triple_shared[of sample_env 0] sample_completes
  have all: "\<forall>ev \<in> set (calls sample_env 0).
      connection ev = (if connects ev then ?t else (None, None, None))"
    and names: "map ev_name ?evs = [''Neo4jGraph'', ''Neo4jVector.from_existing_graph'']"
    by blast+
  from names have "length ?evs = 2" using length_map[of ev_name ?evs] by simp
  then obtain a b where ab: "?evs = [a, b]"
    by (cases ?evs; cases "tl ?evs") auto
  then have "a \<in> set ?evs" "b \<in> set ?evs" by simp_all
  then have "connection a = ?t" "connection b = ?t" using all by auto
  then show ?thesis using ab by simp
qed

subsection \<open>C10: the tools of the agent\<close>

lemma filter_is_tool:
  "map ev_name (filter is_tool evs) = filter (\<lambda>n. n = ''Tool'') (map ev_name evs)"
  by (induction evs) (auto simp: is_tool_def)

text \<open>
  Claim C10. A run that completes constructs exactly two tools: the first with the name
  \<^verbatim>\<open>Tasks\<close> and, as its function, the \<^verbatim>\<open>invoke\<close> of the object that
  \<^verbatim>\<open>RetrievalQA.from_chain_type\<close> returned; the second with the name \<^verbatim>\<open>Graph\<close> and the
  \<^verbatim>\<open>invoke\<close> of the object that \<^verbatim>\<open>GraphCypherQAChain.from_llm\<close> returned; and the list of
  these two, in this order, is what \<^verbatim>\<open>create_react_agent\<close> and \<^verbatim>\<open>AgentExecutor\<close> are given
  as \<^verbatim>\<open>tools\<close>. Hence the function of every tool of the list is one of those two.
\<close>

theorem agent_tools:
  "(outcome E w = Inr () \<longrightarrow>
      length (filter is_tool (calls E w)) = 2 \<and>
      (\<exists>llm_qa retriever vector_qa cypher_llm qa_llm graph cypher_chain tasks_tool graph_tool
          llm prompt agent agent_executor.
         calls E w ! 9 =
           Event (Fn ''RetrievalQA.from_chain_type'') []
             [(''llm'', llm_qa), (''chain_type'', PStr ''stuff''), (''retriever'', retriever)]
             (Inr vector_qa) \<and>
         calls E w ! 16 =
           Event (Fn ''GraphCypherQAChain.from_llm'') []
             [(''cypher_llm'', cypher_llm), (''qa_llm'', qa_llm), (''graph'', graph),
              (''verbose'', PBool True)]
             (Inr cypher_chain) \<and>
         calls E w ! 21 =
           Event (Fn ''Tool'') [] (tasks_tool_kwargs vector_qa) (Inr tasks_tool) \<and>
         calls E w ! 22 =
           Event (Fn ''Tool'') [] (graph_tool_kwargs cypher_chain) (Inr graph_tool) \<and>
         calls E w ! 25 =
           Event (Fn ''create_react_agent'') []
             [(''llm'', llm), (''tools'', PList [tasks_tool, graph_tool]), (''prompt'', prompt),
              (''stop_sequence'', PBool True)]
             (Inr agent) \<and>
         calls E w ! 26 =
           Event (Fn ''AgentExecutor'') []
             [(''agent'', agent), (''tools'', PList [tasks_tool, graph_tool]),
              (''verbose'', PBool True), (''max_iterations'', PInt (int max_iterations))]
             (Inr agent_executor))) \<and>
   map (\<lambda>tool. (map_of tool ''name'', map_of tool ''func''))
     (notebook_tools vector_qa cypher_chain) =
     [(Some (PStr ''Tasks''), Some (PMeth vector_qa ''invoke'')),
      (Some (PStr ''Graph''), Some (PMeth cypher_chain ''invoke''))] \<and>
   (\<forall>tool \<in> set (notebook_tools vector_qa cypher_chain).
      map_of tool ''func'' = Some (PMeth vector_qa ''invoke'') \<or>
      map_of tool ''func'' = Some (PMeth cypher_chain ''invoke''))"
proof (intro conjI)
  show "outcome E w = Inr () \<longrightarrow>
      length (filter is_tool (calls E w)) = 2 \<and>
      (\<exists>llm_qa retriever vector_qa cypher_llm qa_llm graph cypher_chain tasks_tool graph_tool
          llm prompt agent agent_executor.
         calls E w ! 9 =
           Event (Fn ''RetrievalQA.from_chain_type'') []
             [(''llm'', llm_qa), (''chain_type'', PStr ''stuff''), (''retriever'', retriever)]
             (Inr vector_qa) \<and>
         calls E w ! 16 =
           Event (Fn ''GraphCypherQAChain.from_llm'') []
             [(''cypher_llm'', cypher_llm), (''qa_llm'', qa_llm), (''graph'', graph),
              (''verbose'', PBool True)]
             (Inr cypher_chain) \<and>
         calls E w ! 21 =
           Event (Fn ''Tool'') [] (tasks_tool_kwargs vector_qa) (Inr tasks_tool) \<and>
         calls E w ! 22 =
           Event (Fn ''Tool'') [] (graph_tool_kwargs cypher_chain) (Inr graph_tool) \<and>
         calls E w ! 25 =
           Event (Fn ''create_react_agent'') []
             [(''llm'', llm), (''tools'', PList [tasks_tool, graph_tool]), (''prompt'', prompt),
              (''stop_sequence'', PBool True)]
             (Inr agent) \<and>
         calls E w ! 26 =
           Event (Fn ''AgentExecutor'') []
             [(''agent'', agent), (''tools'', PList [tasks_tool, graph_tool]),
              (''verbose'', PBool True), (''max_iterations'', PInt (int max_iterations))]
             (Inr agent_executor))"
  proof
    assume c: "outcome E w = Inr ()"
    from calls_complete[OF c] obtain vs q where t: "calls E w = complete_trace vs q" by blast
    have n: "length (filter is_tool (calls E w)) = 2"
      using arg_cong[OF filter_is_tool[of "calls E w"], of length] calls_script[OF c]
      by (simp add: script_def)
    have "\<exists>tasks_tool graph_tool.
        complete_trace vs q ! 21 =
           Event (Fn ''Tool'') [] (tasks_tool_kwargs (vs ! 9)) (Inr tasks_tool) \<and>
        complete_trace vs q ! 22 =
           Event (Fn ''Tool'') [] (graph_tool_kwargs (vs ! 16)) (Inr graph_tool) \<and>
        (\<exists>llm prompt agent agent_executor.
        complete_trace vs q ! 25 =
           Event (Fn ''create_react_agent'') []
             [(''llm'', llm), (''tools'', PList [tasks_tool, graph_tool]), (''prompt'', prompt),
              (''stop_sequence'', PBool True)]
             (Inr agent) \<and>
        complete_trace vs q ! 26 =
           Event (Fn ''AgentExecutor'') []
             [(''agent'', agent), (''tools'', PList [tasks_tool, graph_tool]),
              (''verbose'', PBool True), (''max_iterations'', PInt (int max_iterations))]
             (Inr agent_executor))"
      by (simp add: complete_trace_def Let_def)
    moreover have "\<exists>llm_qa retriever.
        complete_trace vs q ! 9 =
           Event (Fn ''RetrievalQA.from_chain_type'') []
             [(''llm'', llm_qa), (''chain_type'', PStr ''stuff''), (''retriever'', retriever)]
             (Inr (vs ! 9))"
      by (simp add: complete_trace_def Let_def)
    moreover have "\<exists>cypher_llm qa_llm graph.
        complete_trace vs q ! 16 =
           Event (Fn ''GraphCypherQAChain.from_llm'') []
             [(''cypher_llm'', cypher_llm), (''qa_llm'', qa_llm), (''graph'', graph),
              (''verbose'', PBool True)]
             (Inr (vs ! 16))"
      by (simp add: complete_trace_def Let_def)
    ultimately show "length (filter is_tool (calls E w)) = 2 \<and>
      (\<exists>llm_qa retriever vector_qa cypher_llm qa_llm graph cypher_chain tasks_tool graph_tool
          llm prompt agent agent_executor.
         calls E w ! 9 =
           Event (Fn ''RetrievalQA.from_chain_type'') []
             [(''llm'', llm_qa), (''chain_type'', PStr ''stuff''), (''retriever'', retriever)]
             (Inr vector_qa) \<and>
         calls E w ! 16 =
           Event (Fn ''GraphCypherQAChain.from_llm'') []
             [(''cypher_llm'', cypher_llm), (''qa_llm'', qa_llm), (''graph'', graph),
              (''verbose'', PBool True)]
             (Inr cypher_chain) \<and>
         calls E w ! 21 =
           Event (Fn ''Tool'') [] (tasks_tool_kwargs vector_qa) (Inr tasks_tool) \<and>
         calls E w ! 22 =
           Event (Fn ''Tool'') [] (graph_tool_kwargs cypher_chain) (Inr graph_tool) \<and>
         calls E w ! 25 =
           Event (Fn ''create_react_agent'') []
             [(''llm'', llm), (''tools'', PList [tasks_tool, graph_tool]), (''prompt'', prompt),
              (''stop_sequence'', PBool True)]
             (Inr agent) \<and>
         calls E w ! 26 =
           Event (Fn ''AgentExecutor'') []
             [(''agent'', agent), (''tools'', PList [tasks_tool, graph_tool]),
              (''verbose'', PBool True), (''max_iterations'', PInt (int max_iterations))]
             (Inr agent_executor))"
      using n unfolding t by blast
  qed
  show "map (\<lambda>tool. (map_of tool ''name'', map_of tool ''func''))
          (notebook_tools vector_qa cypher_chain) =
     [(Some (PStr ''Tasks''), Some (PMeth vector_qa ''invoke'')),
      (Some (PStr ''Graph''), Some (PMeth cypher_chain ''invoke''))]"
    by (simp add: notebook_tools_def tasks_tool_kwargs_def graph_tool_kwargs_def)
  show "\<forall>tool \<in> set (notebook_tools vector_qa cypher_chain).
      map_of tool ''func'' = Some (PMeth vector_qa ''invoke'') \<or>
      map_of tool ''func'' = Some (PMeth cypher_chain ''invoke'')"
    by (simp add: notebook_tools_def tasks_tool_kwargs_def graph_tool_kwargs_def)
qed

theorem agent_tools_witness:
  "map (\<lambda>i. ev_name (calls sample_env 0 ! i)) [21, 22] = [''Tool'', ''Tool'']"
proof -
  from agent_tools[of sample_env 0] sample_completes
  obtain vector_qa cypher_chain tasks_tool graph_tool where
    "calls sample_env 0 ! 21 =
       Event (Fn ''Tool'') [] (tasks_tool_kwargs vector_qa) (Inr tasks_tool)"
    "calls sample_env 0 ! 22 =
       Event (Fn ''Tool'') [] (graph_tool_kwargs cypher_chain) (Inr graph_tool)"
    by blast
  then show ?thesis by (simp add: ev_name_def)
qed

end
